theory Spec2Isabelle
  imports Complex_Main
begin

section \<open>The 40 x 24 text screen (js/environments/basic-screen.js)\<close>

text \<open>
  \<open>BasicScreen.config\<close>: the grid has \<open>COLS\<close> columns and \<open>ROWS\<close> rows.
\<close>

definition COLS :: nat where
  "COLS = 40"

definition ROWS :: nat where
  "ROWS = 24"

text \<open>
  A row of the buffer is a JavaScript array of one-character strings. Writing a
  JavaScript array beyond its length extends it and leaves holes, so a cell is a
  \<open>char option\<close> and \<open>None\<close> is a hole. Reading a row that does not exist
  gives \<open>undefined\<close>, and writing a cell of it raises a TypeError.
\<close>

type_synonym cell = "char option"

datatype js_error = TypeError

record screen =
  buffer :: "cell list list"
  cursorX :: nat
  cursorY :: nat

text \<open>\<open>row[i] = v\<close> on a JavaScript array.\<close>

definition array_set :: "cell list \<Rightarrow> nat \<Rightarrow> char \<Rightarrow> cell list" where
  "array_set row i v =
     (if i < length row then row[i := Some v]
      else row @ replicate (i - length row) None @ [Some v])"

text \<open>\<open>new Array(COLS).fill(' ')\<close>\<close>

definition blankRow :: "cell list" where
  "blankRow = replicate COLS (Some CHR '' '')"

definition initBuffer :: "screen \<Rightarrow> screen" where
  "initBuffer s = s\<lparr>buffer := replicate ROWS blankRow, cursorX := 0, cursorY := 0\<rparr>"

text \<open>\<open>shift\<close> drops the first row (and does nothing on an empty array).\<close>

definition scroll :: "screen \<Rightarrow> screen" where
  "scroll s = s\<lparr>buffer := tl (buffer s) @ [blankRow], cursorY := ROWS - 1\<rparr>"

definition newline :: "screen \<Rightarrow> screen" where
  "newline s =
     (let s1 = s\<lparr>cursorX := 0, cursorY := cursorY s + 1\<rparr>
      in if cursorY s1 \<ge> ROWS then scroll s1 else s1)"

definition putChar :: "char \<Rightarrow> screen \<Rightarrow> js_error + screen" where
  "putChar c s =
     (let s1 = (if cursorX s \<ge> COLS then newline s else s);
          s2 = (if cursorY s1 \<ge> ROWS then scroll s1 else s1)
      in if cursorY s2 < length (buffer s2)
         then Inr (s2\<lparr>buffer := (buffer s2)[cursorY s2 :=
                          array_set (buffer s2 ! cursorY s2) (cursorX s2) c],
                       cursorX := cursorX s2 + 1\<rparr>)
         else Inl TypeError)"

text \<open>
  \<open>print\<close> walks the text; a line feed moves to the next row, any other
  character is written at the cursor. The final \<open>render\<close> only rebuilds the
  DOM from the buffer and changes no field of the state.
\<close>

fun print :: "string \<Rightarrow> screen \<Rightarrow> js_error + screen" where
  "print [] s = Inr s"
| "print (c # cs) s =
     (if c = CHR 0x0A then print cs (newline s)
      else (case putChar c s of Inl e \<Rightarrow> Inl e | Inr s' \<Rightarrow> print cs s'))"

definition println :: "string \<Rightarrow> screen \<Rightarrow> js_error + screen" where
  "println text s = print (text @ [CHR 0x0A]) s"

definition clear :: "screen \<Rightarrow> screen" where
  "clear s = initBuffer s"

text \<open>The operations a client of the screen can issue, and a sequence of them.\<close>

datatype screen_op = Print string | Println string | Clear

fun screen_step :: "screen_op \<Rightarrow> screen \<Rightarrow> js_error + screen" where
  "screen_step (Print t) s = print t s"
| "screen_step (Println t) s = println t s"
| "screen_step Clear s = Inr (clear s)"

fun screen_run :: "screen_op list \<Rightarrow> screen \<Rightarrow> js_error + screen" where
  "screen_run [] s = Inr s"
| "screen_run (x # xs) s =
     (case screen_step x s of Inl e \<Rightarrow> Inl e | Inr s' \<Rightarrow> screen_run xs s')"

text \<open>The shape of the grid: \<open>ROWS\<close> rows, each of \<open>COLS\<close> characters, no hole.\<close>

definition grid_ok :: "cell list list \<Rightarrow> bool" where
  "grid_ok b \<longleftrightarrow> length b = ROWS \<and> list_all (\<lambda>row. length row = COLS \<and> list_all (\<lambda>c. c \<noteq> None) row) b"

definition screen_ok :: "screen \<Rightarrow> bool" where
  "screen_ok s \<longleftrightarrow> grid_ok (buffer s) \<and> cursorY s < ROWS"

section \<open>Values of the host language\<close>

text \<open>
  The interpreter computes with JavaScript numbers (IEEE doubles) and strings. The
  arithmetic, the comparisons and the conversions between numbers and text are the
  host's, not the repository's: they are a parameter \<open>H\<close> of the model, so that
  every theorem below holds whatever the host computes. HOL equality on \<open>'n\<close>
  stands for the key equality of a JavaScript \<open>Map\<close>; \<open>num_eq\<close> is \<open>===\<close> on
  two numbers.
\<close>

record 'n host =
  num_of_nat :: "nat \<Rightarrow> 'n"
  num_nan :: "'n"
  num_add :: "'n \<Rightarrow> 'n \<Rightarrow> 'n"
  num_sub :: "'n \<Rightarrow> 'n \<Rightarrow> 'n"
  num_mul :: "'n \<Rightarrow> 'n \<Rightarrow> 'n"
  num_div :: "'n \<Rightarrow> 'n \<Rightarrow> 'n"
  num_neg :: "'n \<Rightarrow> 'n"
  num_eq :: "'n \<Rightarrow> 'n \<Rightarrow> bool"
  num_lt :: "'n \<Rightarrow> 'n \<Rightarrow> bool"
  num_le :: "'n \<Rightarrow> 'n \<Rightarrow> bool"
  num_is_nan :: "'n \<Rightarrow> bool"
  num_to_string :: "'n \<Rightarrow> string"
  string_to_num :: "string \<Rightarrow> 'n"
  parseInt :: "string \<Rightarrow> 'n"
  parseFloat :: "string \<Rightarrow> 'n"

datatype 'n jsval = Num 'n | Str string | Undefined

text \<open>\<open>ToNumber\<close>, \<open>String(v)\<close> and the operators the interpreter applies to values.\<close>

definition to_number :: "'n host \<Rightarrow> 'n jsval \<Rightarrow> 'n" where
  "to_number H v = (case v of Num x \<Rightarrow> x | Str s \<Rightarrow> string_to_num H s | Undefined \<Rightarrow> num_nan H)"

definition to_string :: "'n host \<Rightarrow> 'n jsval \<Rightarrow> string" where
  "to_string H v = (case v of Num x \<Rightarrow> num_to_string H x | Str s \<Rightarrow> s | Undefined \<Rightarrow> ''undefined'')"

definition is_string :: "'n jsval \<Rightarrow> bool" where
  "is_string v = (case v of Str s \<Rightarrow> True | _ \<Rightarrow> False)"

primrec str_less :: "string \<Rightarrow> string \<Rightarrow> bool" where
  "str_less [] ys = (ys \<noteq> [])"
| "str_less (x # xs) ys =
     (case ys of [] \<Rightarrow> False
      | y # ys' \<Rightarrow>
          if (of_char x :: nat) < of_char y then True
          else if (of_char y :: nat) < of_char x then False
          else str_less xs ys')"

definition js_plus :: "'n host \<Rightarrow> 'n jsval \<Rightarrow> 'n jsval \<Rightarrow> 'n jsval" where
  "js_plus H a b =
     (if is_string a \<or> is_string b then Str (to_string H a @ to_string H b)
      else Num (num_add H (to_number H a) (to_number H b)))"

definition js_minus :: "'n host \<Rightarrow> 'n jsval \<Rightarrow> 'n jsval \<Rightarrow> 'n jsval" where
  "js_minus H a b = Num (num_sub H (to_number H a) (to_number H b))"

definition js_times :: "'n host \<Rightarrow> 'n jsval \<Rightarrow> 'n jsval \<Rightarrow> 'n jsval" where
  "js_times H a b = Num (num_mul H (to_number H a) (to_number H b))"

definition js_divide :: "'n host \<Rightarrow> 'n jsval \<Rightarrow> 'n jsval \<Rightarrow> 'n jsval" where
  "js_divide H a b = Num (num_div H (to_number H a) (to_number H b))"

definition js_negate :: "'n host \<Rightarrow> 'n jsval \<Rightarrow> 'n jsval" where
  "js_negate H a = Num (num_neg H (to_number H a))"

text \<open>\<open>a === b\<close>\<close>

definition js_strict_eq :: "'n host \<Rightarrow> 'n jsval \<Rightarrow> 'n jsval \<Rightarrow> bool" where
  "js_strict_eq H a b =
     (case a of
        Num x \<Rightarrow> (case b of Num y \<Rightarrow> num_eq H x y | _ \<Rightarrow> False)
      | Str s \<Rightarrow> (case b of Str t \<Rightarrow> s = t | _ \<Rightarrow> False)
      | Undefined \<Rightarrow> (case b of Undefined \<Rightarrow> True | _ \<Rightarrow> False))"

text \<open>\<open>a < b\<close> and \<open>a <= b\<close>; \<open>a > b\<close> is \<open>b < a\<close> and \<open>a >= b\<close> is \<open>b <= a\<close>.\<close>

definition js_lt :: "'n host \<Rightarrow> 'n jsval \<Rightarrow> 'n jsval \<Rightarrow> bool" where
  "js_lt H a b =
     (case (a, b) of
        (Str s, Str t) \<Rightarrow> str_less s t
      | _ \<Rightarrow> num_lt H (to_number H a) (to_number H b))"

definition js_le :: "'n host \<Rightarrow> 'n jsval \<Rightarrow> 'n jsval \<Rightarrow> bool" where
  "js_le H a b =
     (case (a, b) of
        (Str s, Str t) \<Rightarrow> \<not> str_less t s
      | _ \<Rightarrow> num_le H (to_number H a) (to_number H b))"

text \<open>The truth value of \<open>v\<close> in \<open>if (v)\<close>.\<close>

definition truthy :: "'n host \<Rightarrow> 'n jsval \<Rightarrow> bool" where
  "truthy H v =
     (case v of
        Num x \<Rightarrow> \<not> num_eq H x (num_of_nat H 0) \<and> \<not> num_is_nan H x
      | Str s \<Rightarrow> s \<noteq> []
      | Undefined \<Rightarrow> False)"

text \<open>Decimal digits of an array index, as a template string prints it.\<close>

definition digit_char :: "nat \<Rightarrow> char" where
  "digit_char d = ''0123456789'' ! (d mod 10)"

fun show_nat :: "nat \<Rightarrow> string" where
  "show_nat n = (if n < 10 then [digit_char n] else show_nat (n div 10) @ [digit_char n])"

declare show_nat.simps [simp del]

section \<open>The tokenizer (BasicTokenizer, src/unnamed/part_006)\<close>

datatype 'n tok =
    TNumber 'n
  | TString string
  | TKeyword string
  | TIdentifier string
  | TOperator string
  | TPunctuation string
  | TEOL
  | TEOF

text \<open>A token is its kind with its value, and the column where it starts.\<close>

type_synonym 'n token = "'n tok \<times> nat"

definition KEYWORDS :: "string list" where
  "KEYWORDS = [''PRINT'', ''LET'', ''INPUT'', ''IF'', ''THEN'', ''GOTO'', ''GOSUB'', ''RETURN'',
     ''FOR'', ''TO'', ''STEP'', ''NEXT'', ''REM'', ''END'', ''LIST'', ''RUN'', ''NEW'',
     ''HOME'', ''AND'', ''OR'', ''NOT'']"

definition OPERATORS :: "string list" where
  "OPERATORS = [''<>'', ''<='', ''>='', ''='', ''<'', ''>'', ''+'', ''-'', ''*'', ''/'', ''^'']"

definition PUNCTUATION :: "string list" where
  "PUNCTUATION = [''('', '')'', '','', '';'', '':'']"

text \<open>
  The character classes of the regular expressions \<open>\s\<close>, \<open>\d\<close>, \<open>[A-Za-z]\<close>
  and \<open>[A-Za-z0-9$]\<close>, on code units below 256.
\<close>

definition is_space :: "char \<Rightarrow> bool" where
  "is_space c \<longleftrightarrow> c \<in> set [CHR 0x09, CHR 0x0A, CHR 0x0B, CHR 0x0C, CHR 0x0D, CHR 0x20, CHR 0xA0]"

definition is_digit :: "char \<Rightarrow> bool" where
  "is_digit c \<longleftrightarrow> c \<in> set ''0123456789''"

definition is_upper :: "char \<Rightarrow> bool" where
  "is_upper c \<longleftrightarrow> c \<in> set ''ABCDEFGHIJKLMNOPQRSTUVWXYZ''"

definition is_lower :: "char \<Rightarrow> bool" where
  "is_lower c \<longleftrightarrow> c \<in> set ''abcdefghijklmnopqrstuvwxyz''"

definition is_letter :: "char \<Rightarrow> bool" where
  "is_letter c \<longleftrightarrow> is_upper c \<or> is_lower c"

definition is_word_char :: "char \<Rightarrow> bool" where
  "is_word_char c \<longleftrightarrow> is_letter c \<or> is_digit c \<or> c = CHR ''$''"

definition upper_char :: "char \<Rightarrow> char" where
  "upper_char c =
     (case map_of (zip ''abcdefghijklmnopqrstuvwxyz'' ''ABCDEFGHIJKLMNOPQRSTUVWXYZ'') c of
        Some u \<Rightarrow> u | None \<Rightarrow> c)"

definition toUpperCase :: "string \<Rightarrow> string" where
  "toUpperCase s = map upper_char s"

definition trim :: "string \<Rightarrow> string" where
  "trim s = rev (dropWhile is_space (rev (dropWhile is_space s)))"

text \<open>
  The readers take the source from the start position on and return the value with
  the number of characters they consumed (\<open>endPos - startPos\<close>).
\<close>

primrec readNumber_scan :: "string \<Rightarrow> bool \<Rightarrow> string" where
  "readNumber_scan [] hasDecimal = []"
| "readNumber_scan (c # cs) hasDecimal =
     (if is_digit c then c # readNumber_scan cs hasDecimal
      else if c = CHR ''.'' \<and> \<not> hasDecimal then c # readNumber_scan cs True
      else [])"

definition readNumber :: "'n host \<Rightarrow> string \<Rightarrow> 'n \<times> nat" where
  "readNumber H src =
     (let numStr = readNumber_scan src False;
          hasDecimal = (CHR ''.'' \<in> set numStr);
          v = (if hasDecimal then parseFloat H numStr else parseInt H numStr)
      in (v, length numStr))"

definition readString :: "string \<Rightarrow> string \<times> nat" where
  "readString src =
     (let body = takeWhile (\<lambda>c. c \<noteq> CHR 0x22) (tl src);
          closed = (length body < length (tl src))
      in (body, 1 + length body + (if closed then 1 else 0)))"

definition readWord :: "string \<Rightarrow> string \<times> nat" where
  "readWord src = (let w = takeWhile is_word_char src in (w, length w))"

definition readOperator :: "string \<Rightarrow> (string \<times> nat) option" where
  "readOperator src =
     (let twoChar = take 2 src; oneChar = take 1 src
      in if twoChar \<in> set OPERATORS then Some (twoChar, 2)
         else if oneChar \<in> set OPERATORS then Some (oneChar, 1)
         else None)"

definition isKeyword :: "string \<Rightarrow> bool" where
  "isKeyword w \<longleftrightarrow> toUpperCase w \<in> set KEYWORDS"

function tokenize_loop :: "'n host \<Rightarrow> string \<Rightarrow> nat \<Rightarrow> 'n token list \<Rightarrow> string + 'n token list" where
  "tokenize_loop H [] pos tokens = Inr (tokens @ [(TEOL, pos)])"
| "tokenize_loop H (c # cs) pos tokens =
     (if is_space c then tokenize_loop H cs (pos + 1) tokens
      else if is_digit c then
        (let n = snd (readNumber H (c # cs))
         in tokenize_loop H (drop n (c # cs)) (pos + n)
              (tokens @ [(TNumber (fst (readNumber H (c # cs))), pos)]))
      else if c = CHR 0x22 then
        (let n = snd (readString (c # cs))
         in tokenize_loop H (drop n (c # cs)) (pos + n)
              (tokens @ [(TString (fst (readString (c # cs))), pos)]))
      else if is_letter c then
        (let n = snd (readWord (c # cs));
             upperWord = toUpperCase (fst (readWord (c # cs)))
         in tokenize_loop H (drop n (c # cs)) (pos + n)
              (tokens @ [(if isKeyword upperWord then TKeyword upperWord
                          else TIdentifier upperWord, pos)]))
      else if readOperator (c # cs) \<noteq> None then
        (let n = snd (the (readOperator (c # cs)))
         in tokenize_loop H (drop n (c # cs)) (pos + n)
              (tokens @ [(TOperator (fst (the (readOperator (c # cs)))), pos)]))
      else if [c] \<in> set PUNCTUATION then
        tokenize_loop H cs (pos + 1) (tokens @ [(TPunctuation [c], pos)])
      else Inl (''Unknown character: '' @ [CHR 0x27, c, CHR 0x27] @ '' at position '' @ show_nat pos))"
  by pat_completeness auto
termination
proof (relation "measure (\<lambda>(H, src, pos, tokens). length src)")
  show "wf (measure (\<lambda>(H, src, pos, tokens). length src))"
    by simp
next
  fix H :: "'n host" and c cs pos and tokens :: "'n token list"
  show "((H, cs, pos + 1, tokens), H, c # cs, pos, tokens) \<in> measure (\<lambda>(H, src, pos, tokens). length src)"
    by simp
next
  fix H :: "'n host" and c cs pos and tokens :: "'n token list" and n
  assume "is_digit c" and "n = snd (readNumber H (c # cs))"
  then show "((H, drop n (c # cs), pos + n, tokens @ [(TNumber (fst (readNumber H (c # cs))), pos)]),
      H, c # cs, pos, tokens) \<in> measure (\<lambda>(H, src, pos, tokens). length src)"
    by (simp add: readNumber_def Let_def)
next
  fix H :: "'n host" and c cs pos and tokens :: "'n token list" and n
  assume "n = snd (readString (c # cs))"
  then show "((H, drop n (c # cs), pos + n, tokens @ [(TString (fst (readString (c # cs))), pos)]),
      H, c # cs, pos, tokens) \<in> measure (\<lambda>(H, src, pos, tokens). length src)"
    by (simp add: readString_def Let_def)
next
  fix H :: "'n host" and c cs pos and tokens :: "'n token list" and n upperWord
  assume "is_letter c" and "n = snd (readWord (c # cs))"
  then show "((H, drop n (c # cs), pos + n,
       tokens @ [(if isKeyword upperWord then TKeyword upperWord else TIdentifier upperWord, pos)]),
      H, c # cs, pos, tokens) \<in> measure (\<lambda>(H, src, pos, tokens). length src)"
    by (simp add: readWord_def Let_def is_word_char_def)
next
  fix H :: "'n host" and c cs pos and tokens :: "'n token list" and n
  assume "readOperator (c # cs) \<noteq> None" and "n = snd (the (readOperator (c # cs)))"
  then show "((H, drop n (c # cs), pos + n,
       tokens @ [(TOperator (fst (the (readOperator (c # cs)))), pos)]),
      H, c # cs, pos, tokens) \<in> measure (\<lambda>(H, src, pos, tokens). length src)"
    by (auto simp: readOperator_def Let_def split: if_splits)
next
  fix H :: "'n host" and c cs pos and tokens :: "'n token list"
  show "((H, cs, pos + 1, tokens @ [(TPunctuation [c], pos)]), H, c # cs, pos, tokens)
      \<in> measure (\<lambda>(H, src, pos, tokens). length src)"
    by simp
qed

definition tokenize :: "'n host \<Rightarrow> string \<Rightarrow> string + 'n token list" where
  "tokenize H line = tokenize_loop H (trim line) 0 []"

section \<open>The parser (BasicParser, src/unnamed/part_003)\<close>

datatype 'n expr =
    NUMBER 'n
  | STRING string
  | VARIABLE string
  | BINARY string "'n expr" "'n expr"
  | UNARY string "'n expr"

datatype 'n node =
    PROGRAM_LINE 'n "'n node"
  | EMPTY
  | PRINT "'n expr list" "string list"
  | LET string "'n expr"
  | INPUT string string
  | IF "'n expr" "'n node"
  | GOTO 'n
  | FOR string "'n expr" "'n expr" "'n expr"
  | NEXT "string option"
  | REM
  | END
  | LIST "'n option" "'n option"
  | RUN
  | NEW
  | HOME

text \<open>
  The parser state is the token array with a position; the model keeps the tokens
  from the position on, so the current token is the head of the list. A list that
  is empty stands for a position behind the array, where the current token is
  \<open>undefined\<close> and reading its type raises a TypeError. The tokenizer ends every
  array with an EOL token, which \<open>advance\<close> never passes.

  A parsing function returns \<open>None\<close> when the fuel \<open>k\<close> is used up, and otherwise
  the message of the error it throws or its result with the remaining tokens.
\<close>

type_synonym ('n, 'a) presult = "(string + 'a \<times> 'n token list) option"

text \<open>
  An error is the message of the \<open>Error\<close> object thrown. The message of a TypeError
  is the engine's; the model has one text for it.
\<close>

definition type_error :: string where
  "type_error = ''Cannot read properties of undefined''"

definition type_name :: "'n tok \<Rightarrow> string" where
  "type_name t =
     (case t of
        TNumber v \<Rightarrow> ''NUMBER''
      | TString s \<Rightarrow> ''STRING''
      | TKeyword s \<Rightarrow> ''KEYWORD''
      | TIdentifier s \<Rightarrow> ''IDENTIFIER''
      | TOperator s \<Rightarrow> ''OPERATOR''
      | TPunctuation s \<Rightarrow> ''PUNCTUATION''
      | TEOL \<Rightarrow> ''EOL''
      | TEOF \<Rightarrow> ''EOF'')"

text \<open>The value of a token when it is a string.\<close>

definition string_value :: "'n tok \<Rightarrow> string option" where
  "string_value t =
     (case t of
        TString s \<Rightarrow> Some s
      | TKeyword s \<Rightarrow> Some s
      | TIdentifier s \<Rightarrow> Some s
      | TOperator s \<Rightarrow> Some s
      | TPunctuation s \<Rightarrow> Some s
      | _ \<Rightarrow> None)"

text \<open>The value of a token as a template string prints it.\<close>

definition value_text :: "'n host \<Rightarrow> 'n tok \<Rightarrow> string" where
  "value_text H t =
     (case t of
        TNumber v \<Rightarrow> num_to_string H v
      | TEOL \<Rightarrow> ''null''
      | TEOF \<Rightarrow> ''null''
      | _ \<Rightarrow> the (string_value t))"

definition is_end :: "'n tok \<Rightarrow> bool" where
  "is_end t \<longleftrightarrow> t = TEOL \<or> t = TEOF"

definition isAtEnd :: "'n token list \<Rightarrow> string + bool" where
  "isAtEnd ts = (case ts of [] \<Rightarrow> Inl type_error | (t, p) # rest \<Rightarrow> Inr (is_end t))"

text \<open>Every call of \<open>advance\<close> in the parser comes after a read of the current token.\<close>

definition advance :: "'n token list \<Rightarrow> 'n token list" where
  "advance ts = (case ts of [] \<Rightarrow> [] | (t, p) # rest \<Rightarrow> if is_end t then ts else rest)"

definition check :: "string \<Rightarrow> string option \<Rightarrow> 'n token list \<Rightarrow> string + bool" where
  "check ty val ts =
     (case ts of
        [] \<Rightarrow> Inl type_error
      | (t, p) # rest \<Rightarrow>
          Inr (\<not> is_end t \<and> type_name t = ty
               \<and> (case val of None \<Rightarrow> True | Some v \<Rightarrow> string_value t = Some v)))"

definition expect :: "string \<Rightarrow> string option \<Rightarrow> 'n token list \<Rightarrow> string + 'n tok \<times> 'n token list" where
  "expect ty val ts =
     (case check ty val ts of
        Inl e \<Rightarrow> Inl e
      | Inr ok \<Rightarrow>
          if ok then Inr (fst (hd ts), advance ts)
          else Inl (''Expected '' @ ty
                 @ (case val of None \<Rightarrow> [] | Some v \<Rightarrow> if v = [] then [] else '' '' @ [CHR 0x27] @ v @ [CHR 0x27])
                 @ '', got '' @ type_name (fst (hd ts))))"

text \<open>Sequencing of parsing steps: the first error, or the end of the fuel, stops the parse.\<close>

definition pbind :: "('n, 'a) presult \<Rightarrow> ('a \<Rightarrow> 'n token list \<Rightarrow> ('n, 'b) presult) \<Rightarrow> ('n, 'b) presult" where
  "pbind m f = (case m of None \<Rightarrow> None | Some r \<Rightarrow> (case r of Inl e \<Rightarrow> Some (Inl e) | Inr (x, ts) \<Rightarrow> f x ts))"

subsection \<open>Expressions\<close>

text \<open>
  The three loops of \<open>parseComparison\<close>, \<open>parseAddition\<close> and
  \<open>parseMultiplication\<close> have the same shape: while the current token is one of the
  level's operators, consume it, parse the right operand with the next level and
  fold to the left. Each turn of the loop takes one unit of fuel.
\<close>

primrec op_loop :: "string list \<Rightarrow> ('n token list \<Rightarrow> ('n, 'n expr) presult) \<Rightarrow> nat
    \<Rightarrow> 'n expr \<Rightarrow> 'n token list \<Rightarrow> ('n, 'n expr) presult" where
  "op_loop ops operand 0 node ts =
     (case ts of
        [] \<Rightarrow> Some (Inl type_error)
      | (t, p) # rest \<Rightarrow>
          (case t of
             TOperator op \<Rightarrow> if op \<in> set ops then None else Some (Inr (node, ts))
           | _ \<Rightarrow> Some (Inr (node, ts))))"
| "op_loop ops operand (Suc k) node ts =
     (case ts of
        [] \<Rightarrow> Some (Inl type_error)
      | (t, p) # rest \<Rightarrow>
          (case t of
             TOperator op \<Rightarrow>
               if op \<in> set ops then
                 pbind (operand (advance ts))
                   (\<lambda>right ts1. op_loop ops operand k (BINARY op node right) ts1)
               else Some (Inr (node, ts))
           | _ \<Rightarrow> Some (Inr (node, ts))))"

text \<open>
  The levels of the grammar, over a parser \<open>primary\<close> for the primary values.
\<close>

definition multiplication_over :: "('n token list \<Rightarrow> ('n, 'n expr) presult) \<Rightarrow> nat
    \<Rightarrow> 'n token list \<Rightarrow> ('n, 'n expr) presult" where
  "multiplication_over primary k ts =
     pbind (primary ts) (\<lambda>node ts1. op_loop [''*'', ''/''] primary k node ts1)"

definition addition_over :: "('n token list \<Rightarrow> ('n, 'n expr) presult) \<Rightarrow> nat
    \<Rightarrow> 'n token list \<Rightarrow> ('n, 'n expr) presult" where
  "addition_over primary k ts =
     pbind (multiplication_over primary k ts)
       (\<lambda>node ts1. op_loop [''+'', ''-''] (multiplication_over primary k) k node ts1)"

definition comparison_over :: "('n token list \<Rightarrow> ('n, 'n expr) presult) \<Rightarrow> nat
    \<Rightarrow> 'n token list \<Rightarrow> ('n, 'n expr) presult" where
  "comparison_over primary k ts =
     pbind (addition_over primary k ts)
       (\<lambda>node ts1. op_loop [''='', ''<>'', ''<'', ''>'', ''<='', ''>='']
                     (addition_over primary k) k node ts1)"

text \<open>
  The body of \<open>parsePrimary\<close>, with its two recursive calls (\<open>parseExpression\<close>
  inside parentheses, \<open>parsePrimary\<close> after a unary minus) as parameters.
\<close>

definition primary_body :: "'n host \<Rightarrow> ('n token list \<Rightarrow> ('n, 'n expr) presult)
    \<Rightarrow> ('n token list \<Rightarrow> ('n, 'n expr) presult) \<Rightarrow> 'n token list \<Rightarrow> ('n, 'n expr) presult" where
  "primary_body H expression primary ts =
     (case ts of
        [] \<Rightarrow> Some (Inl type_error)
      | (t, p) # rest \<Rightarrow>
          (case t of
             TNumber v \<Rightarrow> Some (Inr (NUMBER v, advance ts))
           | TString s \<Rightarrow> Some (Inr (STRING s, advance ts))
           | TIdentifier x \<Rightarrow> Some (Inr (VARIABLE x, advance ts))
           | _ \<Rightarrow>
               if check ''PUNCTUATION'' (Some ''('') ts = Inr True then
                 pbind (expression (advance ts))
                   (\<lambda>ex ts1. pbind (Some (expect ''PUNCTUATION'' (Some '')'') ts1))
                      (\<lambda>t2 ts2. Some (Inr (ex, ts2))))
               else if check ''OPERATOR'' (Some ''-'') ts = Inr True then
                 pbind (primary (advance ts))
                   (\<lambda>operand ts1. Some (Inr (UNARY ''-'' operand, ts1)))
               else Some (Inl (''Unexpected token in expression: '' @ type_name t
                        @ '' ('' @ value_text H t @ '')''))))"

primrec parsePrimary :: "'n host \<Rightarrow> nat \<Rightarrow> 'n token list \<Rightarrow> ('n, 'n expr) presult" where
  "parsePrimary H 0 = primary_body H (\<lambda>ts. None) (\<lambda>ts. None)"
| "parsePrimary H (Suc k) =
     primary_body H (comparison_over (parsePrimary H k) k) (parsePrimary H k)"

definition parseMultiplication :: "'n host \<Rightarrow> nat \<Rightarrow> 'n token list \<Rightarrow> ('n, 'n expr) presult" where
  "parseMultiplication H k = multiplication_over (parsePrimary H k) k"

definition parseAddition :: "'n host \<Rightarrow> nat \<Rightarrow> 'n token list \<Rightarrow> ('n, 'n expr) presult" where
  "parseAddition H k = addition_over (parsePrimary H k) k"

definition parseComparison :: "'n host \<Rightarrow> nat \<Rightarrow> 'n token list \<Rightarrow> ('n, 'n expr) presult" where
  "parseComparison H k = comparison_over (parsePrimary H k) k"

definition parseExpression :: "'n host \<Rightarrow> nat \<Rightarrow> 'n token list \<Rightarrow> ('n, 'n expr) presult" where
  "parseExpression H k = parseComparison H k"

subsection \<open>Statements\<close>

text \<open>The loop of \<open>parsePrint\<close>; each expression of the list takes one unit of fuel.\<close>

primrec print_loop :: "('n token list \<Rightarrow> ('n, 'n expr) presult) \<Rightarrow> nat \<Rightarrow> 'n expr list \<Rightarrow> string list
    \<Rightarrow> 'n token list \<Rightarrow> ('n, 'n node) presult" where
  "print_loop expression 0 expressions separators ts =
     (case isAtEnd ts of
        Inl e \<Rightarrow> Some (Inl e)
      | Inr atEnd \<Rightarrow> if atEnd then Some (Inr (PRINT expressions separators, ts)) else None)"
| "print_loop expression (Suc k) expressions separators ts =
     (case isAtEnd ts of
        Inl e \<Rightarrow> Some (Inl e)
      | Inr atEnd \<Rightarrow>
          if atEnd then Some (Inr (PRINT expressions separators, ts))
          else pbind (expression ts)
            (\<lambda>ex ts1.
               if check ''PUNCTUATION'' (Some '';'') ts1 = Inr True then
                 print_loop expression k (expressions @ [ex]) (separators @ ['';'']) (advance ts1)
               else if check ''PUNCTUATION'' (Some '','') ts1 = Inr True then
                 print_loop expression k (expressions @ [ex]) (separators @ ['','']) (advance ts1)
               else (case check ''PUNCTUATION'' (Some '','') ts1 of
                       Inl e \<Rightarrow> Some (Inl e)
                     | Inr b \<Rightarrow> Some (Inr (PRINT (expressions @ [ex]) separators, ts1)))))"

definition parsePrint :: "'n host \<Rightarrow> nat \<Rightarrow> 'n token list \<Rightarrow> ('n, 'n node) presult" where
  "parsePrint H k ts =
     pbind (Some (expect ''KEYWORD'' (Some ''PRINT'') ts))
       (\<lambda>t ts1. print_loop (parseExpression H k) k [] [] ts1)"

definition parseLet :: "'n host \<Rightarrow> nat \<Rightarrow> 'n token list \<Rightarrow> ('n, 'n node) presult" where
  "parseLet H k ts =
     (case check ''KEYWORD'' (Some ''LET'') ts of
        Inl e \<Rightarrow> Some (Inl e)
      | Inr isLet \<Rightarrow>
          pbind (Some (expect ''IDENTIFIER'' None (if isLet then advance ts else ts)))
            (\<lambda>v ts1. pbind (Some (expect ''OPERATOR'' (Some ''='') ts1))
               (\<lambda>t ts2. pbind (parseExpression H k ts2)
                  (\<lambda>val ts3. Some (Inr (LET (the (string_value v)) val, ts3))))))"

definition parseInput :: "'n token list \<Rightarrow> ('n, 'n node) presult" where
  "parseInput ts =
     pbind (Some (expect ''KEYWORD'' (Some ''INPUT'') ts))
       (\<lambda>t ts1.
          (case ts1 of
             [] \<Rightarrow> Some (Inl type_error)
           | (t1, p1) # rest \<Rightarrow>
               (case t1 of
                  TString s \<Rightarrow>
                    (case check ''PUNCTUATION'' (Some '';'') (advance ts1) of
                       Inl e \<Rightarrow> Some (Inl e)
                     | Inr semi \<Rightarrow>
                         if semi then
                           pbind (Some (expect ''IDENTIFIER'' None (advance (advance ts1))))
                             (\<lambda>v ts3. Some (Inr (INPUT s (the (string_value v)), ts3)))
                         else if check ''PUNCTUATION'' (Some '','') (advance ts1) = Inr True then
                           pbind (Some (expect ''IDENTIFIER'' None (advance (advance ts1))))
                             (\<lambda>v ts3. Some (Inr (INPUT (s @ '','') (the (string_value v)), ts3)))
                         else
                           pbind (Some (expect ''IDENTIFIER'' None (advance ts1)))
                             (\<lambda>v ts3. Some (Inr (INPUT s (the (string_value v)), ts3))))
                | _ \<Rightarrow>
                    pbind (Some (expect ''IDENTIFIER'' None ts1))
                      (\<lambda>v ts3. Some (Inr (INPUT [] (the (string_value v)), ts3))))))"

definition parseGoto :: "'n token list \<Rightarrow> ('n, 'n node) presult" where
  "parseGoto ts =
     pbind (Some (expect ''KEYWORD'' (Some ''GOTO'') ts))
       (\<lambda>t ts1. pbind (Some (expect ''NUMBER'' None ts1))
          (\<lambda>n ts2. (case n of TNumber v \<Rightarrow> Some (Inr (GOTO v, ts2))
                     | _ \<Rightarrow> Some (Inl type_error))))"

definition parseFor :: "'n host \<Rightarrow> nat \<Rightarrow> 'n token list \<Rightarrow> ('n, 'n node) presult" where
  "parseFor H k ts =
     pbind (Some (expect ''KEYWORD'' (Some ''FOR'') ts))
       (\<lambda>t ts1. pbind (Some (expect ''IDENTIFIER'' None ts1))
       (\<lambda>v ts2. pbind (Some (expect ''OPERATOR'' (Some ''='') ts2))
       (\<lambda>t ts3. pbind (parseExpression H k ts3)
       (\<lambda>start ts4. pbind (Some (expect ''KEYWORD'' (Some ''TO'') ts4))
       (\<lambda>t ts5. pbind (parseExpression H k ts5)
       (\<lambda>end ts6.
          (case check ''KEYWORD'' (Some ''STEP'') ts6 of
             Inl e \<Rightarrow> Some (Inl e)
           | Inr hasStep \<Rightarrow>
               if hasStep then
                 pbind (parseExpression H k (advance ts6))
                   (\<lambda>step ts7. Some (Inr (FOR (the (string_value v)) start end step, ts7)))
               else Some (Inr (FOR (the (string_value v)) start end (NUMBER (num_of_nat H 1)), ts6)))))))))"

definition parseNext :: "'n token list \<Rightarrow> ('n, 'n node) presult" where
  "parseNext ts =
     pbind (Some (expect ''KEYWORD'' (Some ''NEXT'') ts))
       (\<lambda>t ts1.
          (case ts1 of
             [] \<Rightarrow> Some (Inl type_error)
           | (t1, p1) # rest \<Rightarrow>
               (case t1 of
                  TIdentifier x \<Rightarrow> Some (Inr (NEXT (Some x), advance ts1))
                | _ \<Rightarrow> Some (Inr (NEXT None, ts1)))))"

definition parseRem :: "'n token list \<Rightarrow> ('n, 'n node) presult" where
  "parseRem ts =
     pbind (Some (expect ''KEYWORD'' (Some ''REM'') ts)) (\<lambda>t ts1. Some (Inr (REM, ts1)))"

definition parseList :: "'n token list \<Rightarrow> ('n, 'n node) presult" where
  "parseList ts =
     pbind (Some (expect ''KEYWORD'' (Some ''LIST'') ts))
       (\<lambda>t ts1.
          (case ts1 of
             [] \<Rightarrow> Some (Inl type_error)
           | (t1, p1) # rest \<Rightarrow>
               (case t1 of
                  TNumber start \<Rightarrow>
                    (case check ''OPERATOR'' (Some ''-'') (advance ts1) of
                       Inl e \<Rightarrow> Some (Inl e)
                     | Inr dash \<Rightarrow>
                         if dash then
                           (case advance (advance ts1) of
                              [] \<Rightarrow> Some (Inl type_error)
                            | (t2, p2) # rest2 \<Rightarrow>
                                (case t2 of
                                   TNumber end \<Rightarrow>
                                     Some (Inr (LIST (Some start) (Some end), advance (advance (advance ts1))))
                                 | _ \<Rightarrow> Some (Inr (LIST (Some start) None, advance (advance ts1)))))
                         else Some (Inr (LIST (Some start) None, advance ts1)))
                | _ \<Rightarrow> Some (Inr (LIST None None, ts1)))))"

text \<open>
  \<open>parseIf\<close>, with the parser of the statement after \<open>THEN\<close> as a parameter, and
  the body of \<open>parseStatement\<close> over it.
\<close>

definition parseIf_over :: "'n host \<Rightarrow> nat \<Rightarrow> ('n token list \<Rightarrow> ('n, 'n node) presult)
    \<Rightarrow> 'n token list \<Rightarrow> ('n, 'n node) presult" where
  "parseIf_over H k statement ts =
     pbind (Some (expect ''KEYWORD'' (Some ''IF'') ts))
       (\<lambda>t ts1. pbind (parseExpression H k ts1)
       (\<lambda>condition ts2. pbind (Some (expect ''KEYWORD'' (Some ''THEN'') ts2))
       (\<lambda>t ts3.
          (case ts3 of
             [] \<Rightarrow> Some (Inl type_error)
           | (t3, p3) # rest \<Rightarrow>
               (case t3 of
                  TNumber n \<Rightarrow> Some (Inr (IF condition (GOTO n), advance ts3))
                | _ \<Rightarrow> pbind (statement ts3)
                         (\<lambda>thenStatement ts4. Some (Inr (IF condition thenStatement, ts4))))))))"

definition statement_body :: "'n host \<Rightarrow> nat \<Rightarrow> ('n token list \<Rightarrow> ('n, 'n node) presult)
    \<Rightarrow> 'n token list \<Rightarrow> ('n, 'n node) presult" where
  "statement_body H k statement ts =
     (case ts of
        [] \<Rightarrow> Some (Inl type_error)
      | (t, p) # rest \<Rightarrow>
          (case t of
             TKeyword w \<Rightarrow>
               if w = ''PRINT'' then parsePrint H k ts
               else if w = ''LET'' then parseLet H k ts
               else if w = ''INPUT'' then parseInput ts
               else if w = ''IF'' then parseIf_over H k statement ts
               else if w = ''GOTO'' then parseGoto ts
               else if w = ''FOR'' then parseFor H k ts
               else if w = ''NEXT'' then parseNext ts
               else if w = ''REM'' then parseRem ts
               else if w = ''END'' then Some (Inr (END, advance ts))
               else if w = ''LIST'' then parseList ts
               else if w = ''RUN'' then Some (Inr (RUN, advance ts))
               else if w = ''NEW'' then Some (Inr (NEW, advance ts))
               else if w = ''HOME'' then Some (Inr (HOME, advance ts))
               else Some (Inl (''Unknown keyword: '' @ w))
           | TIdentifier x \<Rightarrow> parseLet H k ts
           | _ \<Rightarrow> Some (Inl (''Unexpected token: '' @ type_name t))))"

primrec parseStatement :: "'n host \<Rightarrow> nat \<Rightarrow> 'n token list \<Rightarrow> ('n, 'n node) presult" where
  "parseStatement H 0 = statement_body H 0 (\<lambda>ts. None)"
| "parseStatement H (Suc k) = statement_body H (Suc k) (parseStatement H k)"

definition parseIf :: "'n host \<Rightarrow> nat \<Rightarrow> 'n token list \<Rightarrow> ('n, 'n node) presult" where
  "parseIf H k = parseIf_over H k (case k of 0 \<Rightarrow> (\<lambda>ts. None) | Suc k' \<Rightarrow> parseStatement H k')"

definition parse :: "'n host \<Rightarrow> nat \<Rightarrow> 'n token list \<Rightarrow> (string + 'n node) option" where
  "parse H k tokens =
     (case isAtEnd tokens of
        Inl e \<Rightarrow> Some (Inl e)
      | Inr atEnd \<Rightarrow>
          if atEnd then Some (Inr EMPTY)
          else (case fst (hd tokens) of
                  TNumber lineNumber \<Rightarrow>
                    (case parseStatement H k (advance tokens) of
                       None \<Rightarrow> None
                     | Some r \<Rightarrow>
                         (case r of
                            Inl e \<Rightarrow> Some (Inl e)
                          | Inr (statement, ts) \<Rightarrow> Some (Inr (PROGRAM_LINE lineNumber statement))))
                | _ \<Rightarrow>
                    (case parseStatement H k tokens of
                       None \<Rightarrow> None
                     | Some r \<Rightarrow>
                         (case r of
                            Inl e \<Rightarrow> Some (Inl e)
                          | Inr (statement, ts) \<Rightarrow> Some (Inr statement)))))"

section \<open>The interpreter (BasicInterpreter, src/js/app.js)\<close>

text \<open>
  The interpreter talks to its terminal through four callbacks, registered by
  \<open>init\<close>. The model takes them as registered and records the calls made to them,
  in order, in \<open>events\<close>. The lines the input callback will deliver are \<open>inputs\<close>;
  when none is left, the pending request is never resolved.
\<close>

datatype event = Output string | OutputLine string | InputRequest string | ClearScreen

record 'n frame =
  variable :: string
  endValue :: "'n jsval"
  stepValue :: "'n jsval"
  bodyStart :: 'n

text \<open>
  \<open>program\<close> is a JavaScript \<open>Map\<close>, kept in insertion order; \<open>variables\<close> is an
  object used as a dictionary; \<open>forStack\<close> is an array whose last element is the
  top of the stack; \<open>nextLine\<close> is \<open>None\<close> while the field is \<open>undefined\<close>.
\<close>

record 'n interp =
  program :: "('n \<times> string \<times> 'n node) list"
  variables :: "string \<rightharpoonup> 'n jsval"
  forStack :: "'n frame list"
  currentLine :: 'n
  running :: bool
  nextLine :: "'n option"
  events :: "event list"
  inputs :: "string list"

definition initial :: "'n host \<Rightarrow> 'n interp" where
  "initial H = \<lparr>program = [], variables = Map.empty, forStack = [],
     currentLine = num_of_nat H 0, running = False, nextLine = None,
     events = [], inputs = []\<rparr>"

subsection \<open>The operations of \<open>Map\<close>, of arrays and of strings that the interpreter uses\<close>

definition map_has :: "('k \<times> 'v) list \<Rightarrow> 'k \<Rightarrow> bool" where
  "map_has m k \<longleftrightarrow> k \<in> set (map fst m)"

definition map_get :: "('k \<times> 'v) list \<Rightarrow> 'k \<Rightarrow> 'v option" where
  "map_get m k = map_of m k"

definition map_set :: "('k \<times> 'v) list \<Rightarrow> 'k \<Rightarrow> 'v \<Rightarrow> ('k \<times> 'v) list" where
  "map_set m k v =
     (if map_has m k then map (\<lambda>(k', v'). if k' = k then (k', v) else (k', v')) m
      else m @ [(k, v)])"

definition map_delete :: "('k \<times> 'v) list \<Rightarrow> 'k \<Rightarrow> ('k \<times> 'v) list" where
  "map_delete m k = filter (\<lambda>(k', v'). k' \<noteq> k) m"

definition map_keys :: "('k \<times> 'v) list \<Rightarrow> 'k list" where
  "map_keys m = map fst m"

text \<open>\<open>obj[name]\<close>: the value of a property, \<open>undefined\<close> when it is absent.\<close>

definition lookup :: "(string \<rightharpoonup> 'n jsval) \<Rightarrow> string \<Rightarrow> 'n jsval" where
  "lookup vars name = (case vars name of None \<Rightarrow> Undefined | Some v \<Rightarrow> v)"

text \<open>\<open>keys.sort((a, b) => a - b)\<close>: \<open>a\<close> goes behind \<open>b\<close> when \<open>a - b > 0\<close>.\<close>

primrec insert_line :: "'n host \<Rightarrow> 'n \<Rightarrow> 'n list \<Rightarrow> 'n list" where
  "insert_line H x [] = [x]"
| "insert_line H x (y # ys) =
     (if num_lt H (num_of_nat H 0) (num_sub H x y) then y # insert_line H x ys
      else x # y # ys)"

definition sort_lines :: "'n host \<Rightarrow> 'n list \<Rightarrow> 'n list" where
  "sort_lines H ks = foldr (insert_line H) ks []"

text \<open>\<open>lines.indexOf(x)\<close>, \<open>None\<close> for \<open>-1\<close>.\<close>

primrec indexOf :: "'n host \<Rightarrow> 'n list \<Rightarrow> 'n \<Rightarrow> nat option" where
  "indexOf H [] x = None"
| "indexOf H (y # ys) x =
     (if num_eq H y x then Some 0 else map_option Suc (indexOf H ys x))"

definition endsWith :: "string \<Rightarrow> char \<Rightarrow> bool" where
  "endsWith s c \<longleftrightarrow> s \<noteq> [] \<and> last s = c"

primrec str_includes :: "string \<Rightarrow> string \<Rightarrow> bool" where
  "str_includes [] sub = (sub = [])"
| "str_includes (c # cs) sub = (take (length sub) (c # cs) = sub \<or> str_includes cs sub)"

text \<open>\<open>source.replace(/^\d+\s*/, '')\<close>\<close>

definition strip_line_number :: "string \<Rightarrow> string" where
  "strip_line_number source =
     (if source \<noteq> [] \<and> is_digit (hd source)
      then dropWhile is_space (dropWhile is_digit source)
      else source)"

subsection \<open>Output\<close>

definition interp_print :: "string \<Rightarrow> 'n interp \<Rightarrow> 'n interp" where
  "interp_print text st = st\<lparr>events := events st @ [Output text]\<rparr>"

definition interp_println :: "string \<Rightarrow> 'n interp \<Rightarrow> 'n interp" where
  "interp_println text st = st\<lparr>events := events st @ [OutputLine text]\<rparr>"

subsection \<open>Expressions\<close>

text \<open>
  A function that can throw returns the message of the error or its value, with the
  state as it is at that moment: what was assigned before a throw stays assigned.

  \<open>name in variables\<close> is modelled as the name being bound in the map. The operator
  also finds the properties that every object inherits, all of which have a
  lower-case letter or an underscore in their name; the names in a parsed program
  are upper-case identifiers of the tokenizer.
\<close>

definition bool_num :: "'n host \<Rightarrow> bool \<Rightarrow> 'n jsval" where
  "bool_num H b = Num (num_of_nat H (if b then 1 else 0))"

definition binary_op :: "'n host \<Rightarrow> string \<Rightarrow> 'n jsval \<Rightarrow> 'n jsval \<Rightarrow> string + 'n jsval" where
  "binary_op H operator left right =
     (if operator = ''+'' then Inr (js_plus H left right)
      else if operator = ''-'' then Inr (js_minus H left right)
      else if operator = ''*'' then Inr (js_times H left right)
      else if operator = ''/'' then
        (if js_strict_eq H right (Num (num_of_nat H 0)) then Inl ''?DIVISION BY ZERO ERROR''
         else Inr (js_divide H left right))
      else if operator = ''='' then Inr (bool_num H (js_strict_eq H left right))
      else if operator = ''<>'' then Inr (bool_num H (\<not> js_strict_eq H left right))
      else if operator = ''<'' then Inr (bool_num H (js_lt H left right))
      else if operator = ''>'' then Inr (bool_num H (js_lt H right left))
      else if operator = ''<='' then Inr (bool_num H (js_le H left right))
      else if operator = ''>='' then Inr (bool_num H (js_le H right left))
      else Inl (''Unknown operator: '' @ operator))"

primrec evaluate :: "'n host \<Rightarrow> 'n expr \<Rightarrow> 'n interp \<Rightarrow> (string + 'n jsval) \<times> 'n interp" where
  "evaluate H (NUMBER v) st = (Inr (Num v), st)"
| "evaluate H (STRING s) st = (Inr (Str s), st)"
| "evaluate H (VARIABLE name) st =
     (let st' = (if variables st name = None
                 then st\<lparr>variables := (variables st)(name \<mapsto>
                        (if endsWith name CHR ''$'' then Str [] else Num (num_of_nat H 0)))\<rparr>
                 else st)
      in (Inr (lookup (variables st') name), st'))"
| "evaluate H (BINARY operator l r) st =
     (case evaluate H l st of
        (Inl e, st1) \<Rightarrow> (Inl e, st1)
      | (Inr left, st1) \<Rightarrow>
          (case evaluate H r st1 of
             (Inl e, st2) \<Rightarrow> (Inl e, st2)
           | (Inr right, st2) \<Rightarrow> (binary_op H operator left right, st2)))"
| "evaluate H (UNARY operator e) st =
     (case evaluate H e st of
        (Inl m, st1) \<Rightarrow> (Inl m, st1)
      | (Inr operand, st1) \<Rightarrow>
          (if operator = ''-'' then Inr (js_negate H operand)
           else Inl (''Unknown unary operator: '' @ operator), st1))"

subsection \<open>Statements\<close>

primrec print_items :: "'n host \<Rightarrow> 'n expr list \<Rightarrow> string list \<Rightarrow> string \<Rightarrow> 'n interp
    \<Rightarrow> (string + string) \<times> 'n interp" where
  "print_items H [] separators out st = (Inr out, st)"
| "print_items H (e # es) separators out st =
     (case evaluate H e st of
        (Inl m, st1) \<Rightarrow> (Inl m, st1)
      | (Inr v, st1) \<Rightarrow>
          print_items H es (tl separators)
            (out @ to_string H v @
               (case separators of
                  [] \<Rightarrow> []
                | s # rest \<Rightarrow> if s = '';'' then [] else if s = '','' then ''     '' else []))
            st1)"

definition executePrint :: "'n host \<Rightarrow> 'n expr list \<Rightarrow> string list \<Rightarrow> 'n interp
    \<Rightarrow> (string + unit) \<times> 'n interp" where
  "executePrint H expressions separators st =
     (case print_items H expressions separators [] st of
        (Inl m, st1) \<Rightarrow> (Inl m, st1)
      | (Inr out, st1) \<Rightarrow>
          (Inr (), if separators = [] \<or> last separators \<noteq> '';''
                   then interp_println out st1 else interp_print out st1))"

definition executeLet :: "'n host \<Rightarrow> string \<Rightarrow> 'n expr \<Rightarrow> 'n interp \<Rightarrow> (string + unit) \<times> 'n interp" where
  "executeLet H var e st =
     (case evaluate H e st of
        (Inl m, st1) \<Rightarrow> (Inl m, st1)
      | (Inr v, st1) \<Rightarrow> (Inr (), st1\<lparr>variables := (variables st1)(var \<mapsto> v)\<rparr>))"

definition executeInput :: "'n host \<Rightarrow> string \<Rightarrow> string \<Rightarrow> 'n interp
    \<Rightarrow> ((string + unit) \<times> 'n interp) option" where
  "executeInput H prompt var st =
     (let promptText = (if prompt \<noteq> [] then prompt else ''? '')
      in case inputs st of
           [] \<Rightarrow> None
         | line # rest \<Rightarrow>
             (let st1 = st\<lparr>events := events st @ [InputRequest promptText], inputs := rest\<rparr>
              in if endsWith var CHR ''$''
                 then Some (Inr (), st1\<lparr>variables := (variables st1)(var \<mapsto> Str line)\<rparr>)
                 else if num_is_nan H (parseFloat H line)
                 then Some (Inl ''?TYPE MISMATCH ERROR'', st1)
                 else Some (Inr (), st1\<lparr>variables := (variables st1)(var \<mapsto> Num (parseFloat H line))\<rparr>)))"

definition undefd_statement :: string where
  "undefd_statement = ''?UNDEF'' @ [CHR 0x27] @ ''D STATEMENT ERROR''"

definition executeGoto :: "'n \<Rightarrow> 'n interp \<Rightarrow> (string + unit) \<times> 'n interp" where
  "executeGoto lineNumber st =
     (if \<not> map_has (program st) lineNumber then (Inl undefd_statement, st)
      else (Inr (), st\<lparr>nextLine := Some lineNumber\<rparr>))"

definition executeFor :: "'n host \<Rightarrow> string \<Rightarrow> 'n expr \<Rightarrow> 'n expr \<Rightarrow> 'n expr \<Rightarrow> 'n interp
    \<Rightarrow> (string + unit) \<times> 'n interp" where
  "executeFor H var start end step st =
     (case evaluate H start st of
        (Inl m, st1) \<Rightarrow> (Inl m, st1)
      | (Inr startValue, st1) \<Rightarrow>
          (case evaluate H end st1 of
             (Inl m, st2) \<Rightarrow> (Inl m, st2)
           | (Inr endV, st2) \<Rightarrow>
               (case evaluate H step st2 of
                  (Inl m, st3) \<Rightarrow> (Inl m, st3)
                | (Inr stepV, st3) \<Rightarrow>
                    (Inr (), st3\<lparr>variables := (variables st3)(var \<mapsto> startValue),
                                forStack := forStack st3 @
                                  [\<lparr>variable = var, endValue = endV, stepValue = stepV,
                                    bodyStart = currentLine st3\<rparr>]\<rparr>))))"

definition next_without_for :: string where
  "next_without_for = ''?NEXT WITHOUT FOR ERROR''"

definition executeNext :: "'n host \<Rightarrow> string option \<Rightarrow> 'n interp \<Rightarrow> (string + unit) \<times> 'n interp" where
  "executeNext H var st =
     (if forStack st = [] then (Inl next_without_for, st)
      else
        (let loop = last (forStack st)
         in if (case var of None \<Rightarrow> False | Some x \<Rightarrow> x \<noteq> [] \<and> x \<noteq> variable loop)
            then (Inl next_without_for, st)
            else
              (let currentValue = lookup (variables st) (variable loop);
                   newValue = js_plus H currentValue (stepValue loop);
                   zero = Num (num_of_nat H 0)
               in if (js_lt H zero (stepValue loop) \<and> js_le H newValue (endValue loop))
                     \<or> (js_lt H (stepValue loop) zero \<and> js_le H (endValue loop) newValue)
                  then (Inr (), st\<lparr>variables := (variables st)(variable loop \<mapsto> newValue),
                                   nextLine := Some (bodyStart loop)\<rparr>)
                  else (Inr (), st\<lparr>forStack := butlast (forStack st)\<rparr>))))"

primrec list_lines :: "'n host \<Rightarrow> 'n list \<Rightarrow> 'n \<Rightarrow> 'n \<Rightarrow> 'n interp \<Rightarrow> (string + unit) \<times> 'n interp" where
  "list_lines H [] start end st = (Inr (), st)"
| "list_lines H (lineNum # rest) start end st =
     (if num_le H start lineNum \<and> num_le H lineNum end then
        (case map_get (program st) lineNum of
           None \<Rightarrow> (Inl type_error, st)
         | Some line \<Rightarrow>
             list_lines H rest start end
               (interp_println (num_to_string H lineNum @ '' '' @ strip_line_number (fst line)) st))
      else list_lines H rest start end st)"

definition executeList :: "'n host \<Rightarrow> 'n option \<Rightarrow> 'n option \<Rightarrow> 'n interp
    \<Rightarrow> (string + unit) \<times> 'n interp" where
  "executeList H start end st =
     (let lines = sort_lines H (map_keys (program st))
      in if lines = [] then (Inr (), interp_println [] st)
         else list_lines H lines
                (case start of None \<Rightarrow> hd lines | Some s \<Rightarrow> s)
                (case end of None \<Rightarrow> last lines | Some e \<Rightarrow> e) st)"

definition executeNew :: "'n interp \<Rightarrow> 'n interp" where
  "executeNew st = interp_println [] (st\<lparr>program := [], variables := Map.empty, forStack := []\<rparr>)"

definition executeHome :: "'n interp \<Rightarrow> 'n interp" where
  "executeHome st = st\<lparr>events := events st @ [ClearScreen]\<rparr>"

subsection \<open>Statement dispatch and RUN\<close>

text \<open>
  \<open>executeNode\<close> and \<open>run\<close> call each other: a stored line may itself be \<open>RUN\<close>.
  \<open>execute_over\<close> is the dispatch of \<open>executeNode\<close> with \<open>run\<close> as a parameter, and
  \<open>run_over\<close> is \<open>run\<close> with the executor of the stored lines as a parameter; the
  knot is tied by recursion on the fuel below.
\<close>

primrec execute_over :: "'n host \<Rightarrow> ('n interp \<Rightarrow> 'n interp option) \<Rightarrow> 'n node \<Rightarrow> 'n interp
    \<Rightarrow> ((string + unit) \<times> 'n interp) option" where
  "execute_over H run (PRINT expressions separators) st = Some (executePrint H expressions separators st)"
| "execute_over H run (LET var e) st = Some (executeLet H var e st)"
| "execute_over H run (INPUT prompt var) st = executeInput H prompt var st"
| "execute_over H run (IF condition thenStatement) st =
     (case evaluate H condition st of
        (Inl m, st1) \<Rightarrow> Some (Inl m, st1)
      | (Inr v, st1) \<Rightarrow>
          if truthy H v then execute_over H run thenStatement st1 else Some (Inr (), st1))"
| "execute_over H run (GOTO lineNumber) st = Some (executeGoto lineNumber st)"
| "execute_over H run (FOR var start end step) st = Some (executeFor H var start end step st)"
| "execute_over H run (NEXT var) st = Some (executeNext H var st)"
| "execute_over H run END st = Some (Inr (), st\<lparr>running := False\<rparr>)"
| "execute_over H run RUN st = map_option (Pair (Inr ())) (run st)"
| "execute_over H run (LIST start end) st = Some (executeList H start end st)"
| "execute_over H run NEW st = Some (Inr (), executeNew st)"
| "execute_over H run HOME st = Some (Inr (), executeHome st)"
| "execute_over H run REM st = Some (Inr (), st)"
| "execute_over H run (PROGRAM_LINE lineNumber statement) st =
     Some (Inl ''Unknown node type: PROGRAM_LINE'', st)"
| "execute_over H run EMPTY st = Some (Inl ''Unknown node type: EMPTY'', st)"

text \<open>
  The loop of \<open>run\<close> over the sorted line numbers, from index \<open>i\<close>. Each line
  executed takes one unit of fuel; \<open>None\<close> says that the fuel did not suffice.
\<close>

primrec run_loop_over :: "'n host \<Rightarrow> ('n node \<Rightarrow> 'n interp \<Rightarrow> ((string + unit) \<times> 'n interp) option)
    \<Rightarrow> nat \<Rightarrow> 'n list \<Rightarrow> nat \<Rightarrow> 'n interp \<Rightarrow> ((string + unit) \<times> 'n interp) option" where
  "run_loop_over H exec 0 lines i st =
     (if i < length lines \<and> running st then None else Some (Inr (), st))"
| "run_loop_over H exec (Suc k) lines i st =
     (if i < length lines \<and> running st then
        (let st1 = st\<lparr>currentLine := lines ! i\<rparr>
         in case map_get (program st1) (currentLine st1) of
              None \<Rightarrow> Some (Inl type_error, st1)
            | Some line \<Rightarrow>
                (case exec (snd line) st1 of
                   None \<Rightarrow> None
                 | Some (Inl m, st2) \<Rightarrow> Some (Inl m, st2)
                 | Some (Inr u, st2) \<Rightarrow>
                     (case nextLine st2 of
                        None \<Rightarrow> run_loop_over H exec k lines (i + 1) st2
                      | Some target \<Rightarrow>
                          (case indexOf H lines target of
                             None \<Rightarrow>
                               Some (Inl (undefd_statement @ '' IN LINE ''
                                            @ num_to_string H (currentLine st2)), st2)
                           | Some nextIdx \<Rightarrow>
                               run_loop_over H exec k lines nextIdx (st2\<lparr>nextLine := None\<rparr>)))))
      else Some (Inr (), st))"

definition run_over :: "'n host \<Rightarrow> ('n node \<Rightarrow> 'n interp \<Rightarrow> ((string + unit) \<times> 'n interp) option)
    \<Rightarrow> nat \<Rightarrow> 'n interp \<Rightarrow> 'n interp option" where
  "run_over H exec k st =
     (if length (program st) = 0 then Some (interp_print (''?NO PROGRAM'' @ [CHR 0x0A]) st)
      else
        (let st1 = st\<lparr>running := True, variables := Map.empty, forStack := []\<rparr>;
             lines = sort_lines H (map_keys (program st1))
         in case run_loop_over H exec k lines 0 st1 of
              None \<Rightarrow> None
            | Some (Inl m, st2) \<Rightarrow> Some ((interp_print (m @ [CHR 0x0A]) st2)\<lparr>running := False\<rparr>)
            | Some (Inr u, st2) \<Rightarrow> Some (st2\<lparr>running := False\<rparr>)))"

primrec executeNode :: "'n host \<Rightarrow> nat \<Rightarrow> 'n node \<Rightarrow> 'n interp \<Rightarrow> ((string + unit) \<times> 'n interp) option" where
  "executeNode H 0 = execute_over H (run_over H (\<lambda>node st. None) 0)"
| "executeNode H (Suc k) = execute_over H (run_over H (executeNode H k) (Suc k))"

definition run :: "'n host \<Rightarrow> nat \<Rightarrow> 'n interp \<Rightarrow> 'n interp option" where
  "run H k = run_over H (case k of 0 \<Rightarrow> (\<lambda>node st. None) | Suc k' \<Rightarrow> executeNode H k') k"

subsection \<open>Immediate mode\<close>

definition storeLine :: "'n \<Rightarrow> string \<Rightarrow> 'n node \<Rightarrow> 'n interp \<Rightarrow> 'n interp" where
  "storeLine lineNumber source ast st =
     (if ast = EMPTY \<or> (ast = REM \<and> \<not> str_includes source ''REM'')
      then st\<lparr>program := map_delete (program st) lineNumber\<rparr>
      else st\<lparr>program := map_set (program st) lineNumber (source, ast)\<rparr>)"

text \<open>The body of the \<open>try\<close> block of \<open>executeImmediate\<close>, and the whole function.\<close>

definition immediate_body :: "'n host \<Rightarrow> nat \<Rightarrow> string \<Rightarrow> 'n interp \<Rightarrow> ((string + unit) \<times> 'n interp) option" where
  "immediate_body H k line st =
     (case tokenize H line of
        Inl m \<Rightarrow> Some (Inl m, st)
      | Inr tokens \<Rightarrow>
          (case parse H k tokens of
             None \<Rightarrow> None
           | Some (Inl m) \<Rightarrow> Some (Inl m, st)
           | Some (Inr ast) \<Rightarrow>
               (case ast of
                  PROGRAM_LINE lineNumber statement \<Rightarrow>
                    Some (Inr (), storeLine lineNumber line statement st)
                | EMPTY \<Rightarrow> Some (Inr (), st)
                | _ \<Rightarrow> executeNode H k ast st)))"

definition executeImmediate :: "'n host \<Rightarrow> nat \<Rightarrow> string \<Rightarrow> 'n interp \<Rightarrow> 'n interp option" where
  "executeImmediate H k line st =
     (if trim line = [] then Some st
      else (case immediate_body H k line st of
              None \<Rightarrow> None
            | Some (Inl m, st1) \<Rightarrow>
                Some (interp_print (''?SYNTAX ERROR'' @ [CHR 0x0A] @ m @ [CHR 0x0A]) st1)
            | Some (Inr u, st1) \<Rightarrow> Some st1))"

section \<open>An instance of the host for evaluation\<close>

text \<open>
  For evaluating the model on concrete programs, numbers are the rationals with the
  three special values of IEEE arithmetic, computed exactly: the instance agrees
  with JavaScript wherever every number involved is an integer of magnitude below
  \<open>2^53\<close>. It does not round, and it reads and prints decimal notation only (no
  exponent).
\<close>

datatype dnum = Fin rat | NaN | PosInf | NegInf

fun d_neg :: "dnum \<Rightarrow> dnum" where
  "d_neg (Fin x) = Fin (- x)"
| "d_neg NaN = NaN"
| "d_neg PosInf = NegInf"
| "d_neg NegInf = PosInf"

fun d_add :: "dnum \<Rightarrow> dnum \<Rightarrow> dnum" where
  "d_add (Fin x) (Fin y) = Fin (x + y)"
| "d_add NaN b = NaN"
| "d_add a NaN = NaN"
| "d_add PosInf NegInf = NaN"
| "d_add NegInf PosInf = NaN"
| "d_add PosInf b = PosInf"
| "d_add NegInf b = NegInf"
| "d_add a PosInf = PosInf"
| "d_add a NegInf = NegInf"

definition d_sub :: "dnum \<Rightarrow> dnum \<Rightarrow> dnum" where
  "d_sub a b = d_add a (d_neg b)"

fun d_sign :: "dnum \<Rightarrow> int" where
  "d_sign (Fin x) = (if x < 0 then - 1 else if x = 0 then 0 else 1)"
| "d_sign NaN = 0"
| "d_sign PosInf = 1"
| "d_sign NegInf = - 1"

definition d_inf :: "int \<Rightarrow> dnum" where
  "d_inf s = (if s = 0 then NaN else if s < 0 then NegInf else PosInf)"

fun d_mul :: "dnum \<Rightarrow> dnum \<Rightarrow> dnum" where
  "d_mul (Fin x) (Fin y) = Fin (x * y)"
| "d_mul NaN b = NaN"
| "d_mul a NaN = NaN"
| "d_mul a b = d_inf (d_sign a * d_sign b)"

fun d_div :: "dnum \<Rightarrow> dnum \<Rightarrow> dnum" where
  "d_div (Fin x) (Fin y) = (if y = 0 then d_inf (d_sign (Fin x)) else Fin (x / y))"
| "d_div NaN b = NaN"
| "d_div a NaN = NaN"
| "d_div (Fin x) b = Fin 0"
| "d_div a (Fin y) = d_inf (d_sign a * (if y < 0 then - 1 else 1))"
| "d_div a b = NaN"

fun d_eq :: "dnum \<Rightarrow> dnum \<Rightarrow> bool" where
  "d_eq (Fin x) (Fin y) = (x = y)"
| "d_eq PosInf PosInf = True"
| "d_eq NegInf NegInf = True"
| "d_eq a b = False"

fun d_lt :: "dnum \<Rightarrow> dnum \<Rightarrow> bool" where
  "d_lt (Fin x) (Fin y) = (x < y)"
| "d_lt NaN b = False"
| "d_lt a NaN = False"
| "d_lt NegInf b = (b \<noteq> NegInf)"
| "d_lt a PosInf = (a \<noteq> PosInf)"
| "d_lt a b = False"

definition d_le :: "dnum \<Rightarrow> dnum \<Rightarrow> bool" where
  "d_le a b \<longleftrightarrow> d_lt a b \<or> d_eq a b"

definition d_is_nan :: "dnum \<Rightarrow> bool" where
  "d_is_nan a \<longleftrightarrow> a = NaN"

text \<open>Printing: the digits of an integer; of another value, at most 16 decimals.\<close>

primrec frac_digits :: "nat \<Rightarrow> rat \<Rightarrow> string" where
  "frac_digits 0 r = []"
| "frac_digits (Suc n) r =
     (if r = 0 then []
      else digit_char (nat \<lfloor>r * 10\<rfloor>) # frac_digits n (r * 10 - of_int \<lfloor>r * 10\<rfloor>))"

definition show_rat :: "rat \<Rightarrow> string" where
  "show_rat x =
     (let a = \<bar>x\<bar>; whole = nat \<lfloor>a\<rfloor>; f = a - of_nat whole
      in (if x < 0 then ''-'' else []) @ show_nat whole
         @ (if f = 0 then [] else ''.'' @ frac_digits 16 f))"

fun d_to_string :: "dnum \<Rightarrow> string" where
  "d_to_string (Fin x) = show_rat x"
| "d_to_string NaN = ''NaN''"
| "d_to_string PosInf = ''Infinity''"
| "d_to_string NegInf = ''-Infinity''"

text \<open>Reading: an optional sign, digits, and an optional fraction.\<close>

definition digits_val :: "string \<Rightarrow> nat" where
  "digits_val ds = foldl (\<lambda>a c. a * 10 + (of_char c - 48)) 0 ds"

definition read_decimal :: "bool \<Rightarrow> string \<Rightarrow> (rat \<times> string) option" where
  "read_decimal fraction s =
     (let neg = (s \<noteq> [] \<and> hd s = CHR ''-'');
          s1 = (if s \<noteq> [] \<and> (hd s = CHR ''-'' \<or> hd s = CHR ''+'') then tl s else s);
          whole = takeWhile is_digit s1;
          s2 = dropWhile is_digit s1;
          hasFrac = (fraction \<and> s2 \<noteq> [] \<and> hd s2 = CHR ''.'');
          frac = (if hasFrac then takeWhile is_digit (tl s2) else []);
          s3 = (if hasFrac then dropWhile is_digit (tl s2) else s2);
          v = of_nat (digits_val whole) + of_nat (digits_val frac) / 10 ^ length frac
      in if whole = [] \<and> frac = [] then None
         else Some (if neg then - v else v, s3))"

definition d_parseInt :: "string \<Rightarrow> dnum" where
  "d_parseInt s = (case read_decimal False (dropWhile is_space s) of None \<Rightarrow> NaN | Some (v, rest) \<Rightarrow> Fin v)"

definition d_parseFloat :: "string \<Rightarrow> dnum" where
  "d_parseFloat s = (case read_decimal True (dropWhile is_space s) of None \<Rightarrow> NaN | Some (v, rest) \<Rightarrow> Fin v)"

definition d_of_string :: "string \<Rightarrow> dnum" where
  "d_of_string s =
     (if trim s = [] then Fin 0
      else (case read_decimal True (trim s) of
              None \<Rightarrow> NaN
            | Some (v, rest) \<Rightarrow> if rest = [] then Fin v else NaN))"

definition ideal :: "dnum host" where
  "ideal = \<lparr>num_of_nat = (\<lambda>n. Fin (of_nat n)), num_nan = NaN,
     num_add = d_add, num_sub = d_sub, num_mul = d_mul, num_div = d_div, num_neg = d_neg,
     num_eq = d_eq, num_lt = d_lt, num_le = d_le, num_is_nan = d_is_nan,
     num_to_string = d_to_string, string_to_num = d_of_string,
     parseInt = d_parseInt, parseFloat = d_parseFloat\<rparr>"

text \<open>Typing lines at the prompt, one after the other.\<close>

primrec enter_lines :: "'n host \<Rightarrow> nat \<Rightarrow> string list \<Rightarrow> 'n interp \<Rightarrow> 'n interp option" where
  "enter_lines H k [] st = Some st"
| "enter_lines H k (line # rest) st =
     (case executeImmediate H k line st of None \<Rightarrow> None | Some st' \<Rightarrow> enter_lines H k rest st')"

section \<open>Predicates and inputs of the properties\<close>

text \<open>
  The value an unset variable gets when it is read, and the relation between the
  variables before and after a statement that only reads: every binding is kept, and
  a name that was unset is unset or bound to its default.
\<close>

definition default_value :: "'n host \<Rightarrow> string \<Rightarrow> 'n jsval" where
  "default_value H name = (if endsWith name CHR ''$'' then Str [] else Num (num_of_nat H 0))"

definition only_defaults_added :: "'n host \<Rightarrow> (string \<rightharpoonup> 'n jsval) \<Rightarrow> (string \<rightharpoonup> 'n jsval) \<Rightarrow> bool" where
  "only_defaults_added H vs vs' \<longleftrightarrow>
     (\<forall>x. vs' x = vs x \<or> (vs x = None \<and> vs' x = Some (default_value H x)))"

definition store_kept :: "'n host \<Rightarrow> 'n interp \<Rightarrow> 'n interp \<Rightarrow> bool" where
  "store_kept H st st' \<longleftrightarrow>
     program st' = program st \<and> only_defaults_added H (variables st) (variables st')"

text \<open>
  The stored program \<open>10 FOR I=1 TO 3\<close>, \<open>20 PRINT I\<close>, \<open>30 NEXT I\<close>
  as the parser stores it, its line numbers in ascending order, the loop frame that
  line 10 pushes, and the effect of one pass through the lines 10, 20 and 30.
\<close>

definition for_next_program :: "(dnum \<times> string \<times> dnum node) list" where
  "for_next_program =
     [(Fin 10, ''10 FOR I=1 TO 3'', FOR ''I'' (NUMBER (Fin 1)) (NUMBER (Fin 3)) (NUMBER (Fin 1))),
      (Fin 20, ''20 PRINT I'', PRINT [VARIABLE ''I''] []),
      (Fin 30, ''30 NEXT I'', NEXT (Some ''I''))]"

definition for_next_lines :: "dnum list" where
  "for_next_lines = [Fin 10, Fin 20, Fin 30]"

definition frame10 :: "dnum frame" where
  "frame10 = \<lparr>variable = ''I'', endValue = Num (Fin 3), stepValue = Num (Fin 1), bodyStart = Fin 10\<rparr>"

definition turn :: "dnum interp \<Rightarrow> dnum interp" where
  "turn st = st\<lparr>currentLine := Fin 30,
     variables := (variables st)(''I'' \<mapsto> Num (Fin 2)),
     forStack := forStack st @ [frame10],
     nextLine := None,
     events := events st @ [OutputLine ''1'']\<rparr>"

section \<open>Properties of the screen\<close>

lemma blankRow_ok: "length blankRow = COLS \<and> list_all (\<lambda>c. c \<noteq> None) blankRow"
  by (simp add: blankRow_def list_all_iff)

lemma initBuffer_ok: "screen_ok (initBuffer s)"
  using blankRow_ok
  by (simp add: screen_ok_def grid_ok_def initBuffer_def ROWS_def list_all_iff)

lemma scroll_ok:
  assumes "grid_ok (buffer s)"
  shows "screen_ok (scroll s)"
proof -
  from assms have len: "length (buffer s) = ROWS"
    and rows: "list_all (\<lambda>row. length row = COLS \<and> list_all (\<lambda>c. c \<noteq> None) row) (buffer s)"
    by (simp_all add: grid_ok_def)
  from len have ne: "buffer s \<noteq> []"
    by (auto simp: ROWS_def)
  from rows ne have "list_all (\<lambda>row. length row = COLS \<and> list_all (\<lambda>c. c \<noteq> None) row) (tl (buffer s))"
    by (cases "buffer s") simp_all
  with len ne blankRow_ok show ?thesis
    by (simp add: screen_ok_def grid_ok_def scroll_def ROWS_def)
qed

lemma newline_ok:
  assumes "screen_ok s"
  shows "screen_ok (newline s)"
proof (cases "cursorY s + 1 \<ge> ROWS")
  case True
  from assms have "grid_ok (buffer (s\<lparr>cursorX := 0, cursorY := cursorY s + 1\<rparr>))"
    by (simp add: screen_ok_def)
  then have "screen_ok (scroll (s\<lparr>cursorX := 0, cursorY := cursorY s + 1\<rparr>))"
    by (rule scroll_ok)
  with True show ?thesis
    by (simp add: newline_def Let_def)
next
  case False
  with assms show ?thesis
    by (simp add: newline_def Let_def screen_ok_def)
qed

lemma newline_cursorX: "cursorX (newline s) = 0"
  by (simp add: newline_def Let_def scroll_def)

lemma array_set_ok:
  assumes "length row = COLS" and "list_all (\<lambda>c. c \<noteq> None) row" and "i < COLS"
  shows "length (array_set row i v) = COLS \<and> list_all (\<lambda>c. c \<noteq> None) (array_set row i v)"
proof -
  from assms have "array_set row i v = row[i := Some v]"
    by (simp add: array_set_def)
  moreover from assms(2) have "list_all (\<lambda>c. c \<noteq> None) (row[i := Some v])"
    by (auto simp: list_all_iff dest!: set_update_subset_insert [THEN subsetD])
  ultimately show ?thesis
    using assms(1) by simp
qed

lemma putChar_ok:
  assumes "screen_ok s"
  shows "\<exists>s'. putChar c s = Inr s' \<and> screen_ok s'"
proof -
  define s1 where "s1 = (if cursorX s \<ge> COLS then newline s else s)"
  have ok1: "screen_ok s1"
    using assms newline_ok by (simp add: s1_def)
  have x1: "cursorX s1 < COLS"
    by (simp add: s1_def newline_cursorX COLS_def)
  from ok1 have y1: "cursorY s1 < ROWS" and g1: "grid_ok (buffer s1)"
    by (simp_all add: screen_ok_def)
  from g1 have len: "length (buffer s1) = ROWS"
    and rows: "list_all (\<lambda>row. length row = COLS \<and> list_all (\<lambda>c. c \<noteq> None) row) (buffer s1)"
    by (simp_all add: grid_ok_def)
  from rows y1 len have row: "length (buffer s1 ! cursorY s1) = COLS"
    "list_all (\<lambda>c. c \<noteq> None) (buffer s1 ! cursorY s1)"
    by (simp_all add: list_all_length)
  let ?row' = "array_set (buffer s1 ! cursorY s1) (cursorX s1) c"
  let ?s' = "s1\<lparr>buffer := (buffer s1)[cursorY s1 := ?row'], cursorX := cursorX s1 + 1\<rparr>"
  from array_set_ok [OF row x1] have row': "length ?row' = COLS" "list_all (\<lambda>c. c \<noteq> None) ?row'"
    by simp_all
  have eq: "putChar c s = Inr ?s'"
    using y1 len by (simp add: putChar_def Let_def s1_def [symmetric])
  from rows row' have "list_all (\<lambda>row. length row = COLS \<and> list_all (\<lambda>c. c \<noteq> None) row)
      ((buffer s1)[cursorY s1 := ?row'])"
    by (auto simp: list_all_iff dest!: set_update_subset_insert [THEN subsetD])
  with len y1 have "screen_ok ?s'"
    by (simp add: screen_ok_def grid_ok_def)
  with eq show ?thesis
    by blast
qed

lemma print_ok:
  "screen_ok s \<Longrightarrow> \<exists>s'. print t s = Inr s' \<and> screen_ok s'"
proof (induction t arbitrary: s)
  case Nil
  then show ?case by simp
next
  case (Cons c cs)
  show ?case
  proof (cases "c = CHR 0x0A")
    case True
    from Cons.prems have "screen_ok (newline s)"
      by (rule newline_ok)
    from Cons.IH [OF this] True show ?thesis
      by simp
  next
    case False
    from putChar_ok [OF Cons.prems] obtain s1 where s1: "putChar c s = Inr s1" "screen_ok s1"
      by blast
    from Cons.IH [OF s1(2)] s1(1) False show ?thesis
      by simp
  qed
qed

lemma screen_step_ok:
  "screen_ok s \<Longrightarrow> \<exists>s'. screen_step x s = Inr s' \<and> screen_ok s'"
  by (cases x) (simp_all add: print_ok println_def clear_def initBuffer_ok)

lemma screen_run_ok:
  "screen_ok s \<Longrightarrow> \<exists>s'. screen_run xs s = Inr s' \<and> screen_ok s'"
proof (induction xs arbitrary: s)
  case Nil
  then show ?case by simp
next
  case (Cons x xs)
  from screen_step_ok [OF Cons.prems] obtain s1 where s1: "screen_step x s = Inr s1" "screen_ok s1"
    by blast
  from Cons.IH [OF s1(2)] s1(1) show ?case
    by simp
qed

lemma newline_last_row:
  "cursorY s = ROWS - 1 \<Longrightarrow>
   newline s = s\<lparr>buffer := tl (buffer s) @ [blankRow], cursorX := 0, cursorY := ROWS - 1\<rparr>"
  by (simp add: newline_def scroll_def Let_def ROWS_def)

lemma print_single:
  "print [c] s = (if c = CHR 0x0A then Inr (newline s) else putChar c s)"
  by (cases "putChar c s") simp_all

lemma print_Cons_step:
  "print (c # cs) s = (case print [c] s of Inl e \<Rightarrow> Inl e | Inr s' \<Rightarrow> print cs s')"
  by (cases "putChar c s") simp_all

lemma newline_other_row:
  "cursorY s < ROWS - 1 \<Longrightarrow> newline s = s\<lparr>cursorX := 0, cursorY := cursorY s + 1\<rparr>"
  by (simp add: newline_def Let_def)

lemma putChar_in_row:
  assumes "screen_ok s" and "cursorX s < COLS"
  shows "putChar c s = Inr (s\<lparr>buffer := (buffer s)[cursorY s :=
            (buffer s ! cursorY s)[cursorX s := Some c]], cursorX := cursorX s + 1\<rparr>)"
proof -
  from assms(1) have y: "cursorY s < ROWS" and len: "length (buffer s) = ROWS"
    and rows: "list_all (\<lambda>row. length row = COLS \<and> list_all (\<lambda>c. c \<noteq> None) row) (buffer s)"
    by (simp_all add: screen_ok_def grid_ok_def)
  from rows y len have "length (buffer s ! cursorY s) = COLS"
    by (simp add: list_all_length)
  with assms(2) have "array_set (buffer s ! cursorY s) (cursorX s) c
      = (buffer s ! cursorY s)[cursorX s := Some c]"
    by (simp add: array_set_def)
  with assms(2) y len show ?thesis
    by (simp add: putChar_def Let_def)
qed

lemma putChar_wraps:
  assumes "COLS \<le> cursorX s"
  shows "putChar c s = putChar c (newline s)"
  using assms by (simp add: putChar_def Let_def newline_cursorX COLS_def)

lemma putChar_wrap_last_row:
  assumes "screen_ok s" and "COLS \<le> cursorX s" and "cursorY s = ROWS - 1"
  shows "putChar c s = Inr (s\<lparr>buffer := tl (buffer s) @ [blankRow[0 := Some c]],
            cursorX := 1, cursorY := ROWS - 1\<rparr>)"
proof -
  let ?n = "s\<lparr>buffer := tl (buffer s) @ [blankRow], cursorX := 0, cursorY := ROWS - 1\<rparr>"
  have n: "newline s = ?n"
    using assms(3) by (rule newline_last_row)
  from assms(1) have len: "length (tl (buffer s)) = ROWS - 1"
    by (simp add: screen_ok_def grid_ok_def)
  have "screen_ok ?n"
    using newline_ok [OF assms(1)] n by simp
  moreover have "cursorX ?n < COLS"
    by (simp add: COLS_def)
  ultimately have "putChar c ?n = Inr (?n\<lparr>buffer := (buffer ?n)[cursorY ?n :=
            (buffer ?n ! cursorY ?n)[cursorX ?n := Some c]], cursorX := cursorX ?n + 1\<rparr>)"
    by (rule putChar_in_row)
  moreover have "(tl (buffer s) @ [blankRow])[ROWS - 1 := ((tl (buffer s) @ [blankRow]) ! (ROWS - 1))[0 := Some c]]
      = tl (buffer s) @ [blankRow[0 := Some c]]"
    using len by (simp add: nth_append list_update_append)
  ultimately show ?thesis
    using putChar_wraps [OF assms(2), of c] n by simp
qed

lemma putChar_wrap_other_row:
  assumes "screen_ok s" and "COLS \<le> cursorX s" and "cursorY s < ROWS - 1"
  shows "putChar c s = Inr (s\<lparr>buffer := (buffer s)[cursorY s + 1 :=
            (buffer s ! (cursorY s + 1))[0 := Some c]], cursorX := 1, cursorY := cursorY s + 1\<rparr>)"
proof -
  let ?n = "s\<lparr>cursorX := 0, cursorY := cursorY s + 1\<rparr>"
  have n: "newline s = ?n"
    using assms(3) by (rule newline_other_row)
  have "screen_ok ?n"
    using newline_ok [OF assms(1)] n by simp
  moreover have "cursorX ?n < COLS"
    by (simp add: COLS_def)
  ultimately have "putChar c ?n = Inr (?n\<lparr>buffer := (buffer ?n)[cursorY ?n :=
            (buffer ?n ! cursorY ?n)[cursorX ?n := Some c]], cursorX := cursorX ?n + 1\<rparr>)"
    by (rule putChar_in_row)
  then show ?thesis
    using putChar_wraps [OF assms(2), of c] n by simp
qed

lemma two_lines_at_bottom:
  "screen_run [Println ''A'', Println ''B'', Print (replicate 21 (CHR 0x0A))]
       (initBuffer \<lparr>buffer = [], cursorX = 0, cursorY = 0\<rparr>)
     = Inr \<lparr>buffer = (Some CHR ''A'' # replicate 39 (Some CHR '' ''))
                       # (Some CHR ''B'' # replicate 39 (Some CHR '' ''))
                       # replicate 22 blankRow,
             cursorX = 0, cursorY = 23\<rparr>"
  by code_simp

lemma full_last_row:
  "screen_run [Println ''A'', Println ''B'', Print (replicate 21 (CHR 0x0A)), Print (replicate 40 (CHR ''C''))]
       (initBuffer \<lparr>buffer = [], cursorX = 0, cursorY = 0\<rparr>)
     = Inr \<lparr>buffer = (Some CHR ''A'' # replicate 39 (Some CHR '' ''))
                       # (Some CHR ''B'' # replicate 39 (Some CHR '' ''))
                       # replicate 21 blankRow @ [replicate 40 (Some CHR ''C'')],
             cursorX = 40, cursorY = 23\<rparr>"
  by code_simp

text \<open>
  Claim C9. Whatever sequence of \<open>print\<close>, \<open>println\<close> and \<open>clear\<close> is applied
  to an initialised screen, no operation fails, the buffer is made of exactly
  \<open>ROWS\<close> (24) rows of \<open>COLS\<close> (40) characters, and the cursor row is below
  \<open>ROWS\<close>. On the screen so reached, the next output behaves as follows.
  With the cursor on the last row, printing a line feed (by \<open>print\<close> or by
  \<open>println\<close>) drops the first row, appends a blank row at the bottom and leaves
  the cursor on the last row, at column 0; printing any other character with the
  cursor at column \<open>COLS\<close> does the same and then writes the character at
  column 0 of the new bottom row. With the cursor on another row, a line feed
  moves to the start of the next row and a character at column \<open>COLS\<close> is
  written at the start of the next row, the buffer keeping all its rows. A
  character printed at a column below \<open>COLS\<close> is written at the cursor, which
  moves one column right. \<open>print\<close> of a longer text does this character by
  character, and \<open>println\<close> is \<open>print\<close> of the text followed by a line feed.
\<close>

theorem screen_rows_cols_scroll:
  "\<exists>s'. screen_run xs (initBuffer s) = Inr s'
      \<and> length (buffer s') = ROWS
      \<and> list_all (\<lambda>row. length row = COLS \<and> list_all (\<lambda>c. c \<noteq> None) row) (buffer s')
      \<and> cursorY s' < ROWS
      \<and> (cursorY s' = ROWS - 1 \<longrightarrow>
            screen_step (Print [CHR 0x0A]) s'
              = Inr (s'\<lparr>buffer := tl (buffer s') @ [blankRow], cursorX := 0, cursorY := ROWS - 1\<rparr>)
            \<and> screen_step (Println []) s'
              = Inr (s'\<lparr>buffer := tl (buffer s') @ [blankRow], cursorX := 0, cursorY := ROWS - 1\<rparr>)
            \<and> (\<forall>c. c \<noteq> CHR 0x0A \<and> COLS \<le> cursorX s' \<longrightarrow>
                  screen_step (Print [c]) s'
                    = Inr (s'\<lparr>buffer := tl (buffer s') @ [blankRow[0 := Some c]],
                              cursorX := 1, cursorY := ROWS - 1\<rparr>)))
      \<and> (cursorY s' < ROWS - 1 \<longrightarrow>
            screen_step (Print [CHR 0x0A]) s' = Inr (s'\<lparr>cursorX := 0, cursorY := cursorY s' + 1\<rparr>)
            \<and> (\<forall>c. c \<noteq> CHR 0x0A \<and> COLS \<le> cursorX s' \<longrightarrow>
                  screen_step (Print [c]) s'
                    = Inr (s'\<lparr>buffer := (buffer s')[cursorY s' + 1 :=
                                (buffer s' ! (cursorY s' + 1))[0 := Some c]],
                              cursorX := 1, cursorY := cursorY s' + 1\<rparr>)))
      \<and> (\<forall>c. c \<noteq> CHR 0x0A \<and> cursorX s' < COLS \<longrightarrow>
            screen_step (Print [c]) s'
              = Inr (s'\<lparr>buffer := (buffer s')[cursorY s' :=
                          (buffer s' ! cursorY s')[cursorX s' := Some c]],
                        cursorX := cursorX s' + 1\<rparr>))
      \<and> (\<forall>c cs. screen_step (Print (c # cs)) s'
            = (case screen_step (Print [c]) s' of Inl e \<Rightarrow> Inl e | Inr s'' \<Rightarrow> screen_step (Print cs) s''))
      \<and> (\<forall>t. screen_step (Println t) s' = screen_step (Print (t @ [CHR 0x0A])) s')"
proof -
  from screen_run_ok [OF initBuffer_ok] obtain s' where
    run: "screen_run xs (initBuffer s) = Inr s'" and ok: "screen_ok s'"
    by blast
  from ok have shape: "length (buffer s') = ROWS"
    "list_all (\<lambda>row. length row = COLS \<and> list_all (\<lambda>c. c \<noteq> None) row) (buffer s')"
    "cursorY s' < ROWS"
    by (simp_all add: screen_ok_def grid_ok_def)
  have lf_last: "screen_step (Print [CHR 0x0A]) s'
      = Inr (s'\<lparr>buffer := tl (buffer s') @ [blankRow], cursorX := 0, cursorY := ROWS - 1\<rparr>)"
    and ln_last: "screen_step (Println []) s'
      = Inr (s'\<lparr>buffer := tl (buffer s') @ [blankRow], cursorX := 0, cursorY := ROWS - 1\<rparr>)"
    if "cursorY s' = ROWS - 1"
    using newline_last_row [OF that] by (simp_all add: println_def)
  have wrap_last: "screen_step (Print [c]) s'
      = Inr (s'\<lparr>buffer := tl (buffer s') @ [blankRow[0 := Some c]], cursorX := 1, cursorY := ROWS - 1\<rparr>)"
    if "cursorY s' = ROWS - 1" and "c \<noteq> CHR 0x0A" and "COLS \<le> cursorX s'" for c
    using putChar_wrap_last_row [OF ok that(3) that(1), of c] that(2)
    by (simp add: print_single del: print.simps)
  have lf_other: "screen_step (Print [CHR 0x0A]) s' = Inr (s'\<lparr>cursorX := 0, cursorY := cursorY s' + 1\<rparr>)"
    if "cursorY s' < ROWS - 1"
    using newline_other_row [OF that] by simp
  have wrap_other: "screen_step (Print [c]) s'
      = Inr (s'\<lparr>buffer := (buffer s')[cursorY s' + 1 := (buffer s' ! (cursorY s' + 1))[0 := Some c]],
                cursorX := 1, cursorY := cursorY s' + 1\<rparr>)"
    if "cursorY s' < ROWS - 1" and "c \<noteq> CHR 0x0A" and "COLS \<le> cursorX s'" for c
    using putChar_wrap_other_row [OF ok that(3) that(1), of c] that(2)
    by (simp add: print_single del: print.simps)
  have in_row: "screen_step (Print [c]) s'
      = Inr (s'\<lparr>buffer := (buffer s')[cursorY s' := (buffer s' ! cursorY s')[cursorX s' := Some c]],
                cursorX := cursorX s' + 1\<rparr>)"
    if "c \<noteq> CHR 0x0A" and "cursorX s' < COLS" for c
    using putChar_in_row [OF ok that(2), of c] that(1)
    by (simp add: print_single del: print.simps)
  have seq: "screen_step (Print (c # cs)) s'
      = (case screen_step (Print [c]) s' of Inl e \<Rightarrow> Inl e | Inr s'' \<Rightarrow> screen_step (Print cs) s'')"
    for c cs
    using print_Cons_step [of c cs s'] by (cases "print [c] s'") (simp_all del: print.simps)
  have ln: "screen_step (Println t) s' = screen_step (Print (t @ [CHR 0x0A])) s'" for t
    by (simp add: println_def)
  from run shape lf_last ln_last wrap_last lf_other wrap_other in_row seq ln show ?thesis
    by blast
qed

text \<open>
  The theorem at concrete inputs. Two lines \<open>A\<close> and \<open>B\<close> followed by 21 line
  feeds leave the cursor on the last row with \<open>A\<close> in the first row: one more line
  feed discards the row of \<open>A\<close>, so that \<open>B\<close> is the first row. After 40
  further characters \<open>C\<close> the cursor is at column \<open>COLS\<close> of the last row:
  printing \<open>D\<close> discards the row of \<open>A\<close> and writes \<open>D\<close> at the start of a new
  bottom row, below the row of \<open>C\<close>.
\<close>

theorem screen_rows_cols_scroll_witness:
  "screen_run [Println ''A'', Println ''B'', Print (replicate 21 (CHR 0x0A))]
       (initBuffer \<lparr>buffer = [], cursorX = 0, cursorY = 0\<rparr>)
     = Inr \<lparr>buffer = (Some CHR ''A'' # replicate 39 (Some CHR '' ''))
                        # (Some CHR ''B'' # replicate 39 (Some CHR '' ''))
                        # replicate 22 blankRow,
              cursorX = 0, cursorY = 23\<rparr>
   \<and> screen_step (Print [CHR 0x0A]) \<lparr>buffer = (Some CHR ''A'' # replicate 39 (Some CHR '' ''))
                        # (Some CHR ''B'' # replicate 39 (Some CHR '' ''))
                        # replicate 22 blankRow,
              cursorX = 0, cursorY = 23\<rparr>
     = Inr \<lparr>buffer = (Some CHR ''B'' # replicate 39 (Some CHR '' ''))
                       # replicate 22 blankRow @ [blankRow],
             cursorX = 0, cursorY = 23\<rparr>
   \<and> screen_run [Println ''A'', Println ''B'', Print (replicate 21 (CHR 0x0A)),
         Print (replicate 40 (CHR ''C''))]
       (initBuffer \<lparr>buffer = [], cursorX = 0, cursorY = 0\<rparr>)
     = Inr \<lparr>buffer = (Some CHR ''A'' # replicate 39 (Some CHR '' ''))
                        # (Some CHR ''B'' # replicate 39 (Some CHR '' ''))
                        # replicate 21 blankRow @ [replicate 40 (Some CHR ''C'')],
              cursorX = 40, cursorY = 23\<rparr>
   \<and> screen_step (Print ''D'') \<lparr>buffer = (Some CHR ''A'' # replicate 39 (Some CHR '' ''))
                        # (Some CHR ''B'' # replicate 39 (Some CHR '' ''))
                        # replicate 21 blankRow @ [replicate 40 (Some CHR ''C'')],
              cursorX = 40, cursorY = 23\<rparr>
     = Inr \<lparr>buffer = (Some CHR ''B'' # replicate 39 (Some CHR '' ''))
                       # replicate 21 blankRow @ [replicate 40 (Some CHR ''C''), blankRow[0 := Some CHR ''D'']],
             cursorX = 1, cursorY = 23\<rparr>"
proof -
  let ?S1 = "\<lparr>buffer = (Some CHR ''A'' # replicate 39 (Some CHR '' ''))
                 # (Some CHR ''B'' # replicate 39 (Some CHR '' ''))
                 # replicate 22 blankRow,
       cursorX = 0, cursorY = 23\<rparr>"
  let ?S2 = "\<lparr>buffer = (Some CHR ''A'' # replicate 39 (Some CHR '' ''))
                 # (Some CHR ''B'' # replicate 39 (Some CHR '' ''))
                 # replicate 21 blankRow @ [replicate 40 (Some CHR ''C'')],
       cursorX = 40, cursorY = 23\<rparr>"
  from screen_rows_cols_scroll [of "[Println ''A'', Println ''B'', Print (replicate 21 (CHR 0x0A))]"
      "\<lparr>buffer = [], cursorX = 0, cursorY = 0\<rparr>"]
  obtain s1 where r1: "screen_run [Println ''A'', Println ''B'', Print (replicate 21 (CHR 0x0A))]
       (initBuffer \<lparr>buffer = [], cursorX = 0, cursorY = 0\<rparr>) = Inr s1"
    and l1: "cursorY s1 = ROWS - 1 \<longrightarrow>
            screen_step (Print [CHR 0x0A]) s1
              = Inr (s1\<lparr>buffer := tl (buffer s1) @ [blankRow], cursorX := 0, cursorY := ROWS - 1\<rparr>)
            \<and> screen_step (Println []) s1
              = Inr (s1\<lparr>buffer := tl (buffer s1) @ [blankRow], cursorX := 0, cursorY := ROWS - 1\<rparr>)
            \<and> (\<forall>c. c \<noteq> CHR 0x0A \<and> COLS \<le> cursorX s1 \<longrightarrow>
                  screen_step (Print [c]) s1
                    = Inr (s1\<lparr>buffer := tl (buffer s1) @ [blankRow[0 := Some c]],
                              cursorX := 1, cursorY := ROWS - 1\<rparr>))"
    by (elim exE conjE)
  from r1 have e1: "s1 = ?S1"
    unfolding two_lines_at_bottom by (simp only: sum.inject)
  have c1: "cursorY ?S1 = ROWS - 1"
    by (simp add: ROWS_def)
  from l1 [unfolded e1] c1
  have "screen_step (Print [CHR 0x0A]) ?S1
      = Inr (?S1\<lparr>buffer := tl (buffer ?S1) @ [blankRow], cursorX := 0, cursorY := ROWS - 1\<rparr>)"
    by blast
  then have first: "screen_step (Print [CHR 0x0A]) ?S1
     = Inr \<lparr>buffer = (Some CHR ''B'' # replicate 39 (Some CHR '' ''))
                       # replicate 22 blankRow @ [blankRow],
             cursorX = 0, cursorY = 23\<rparr>"
    by (simp add: ROWS_def del: screen_step.simps)
  from screen_rows_cols_scroll [of "[Println ''A'', Println ''B'', Print (replicate 21 (CHR 0x0A)),
        Print (replicate 40 (CHR ''C''))]"
      "\<lparr>buffer = [], cursorX = 0, cursorY = 0\<rparr>"]
  obtain s2 where r2: "screen_run [Println ''A'', Println ''B'', Print (replicate 21 (CHR 0x0A)),
        Print (replicate 40 (CHR ''C''))]
       (initBuffer \<lparr>buffer = [], cursorX = 0, cursorY = 0\<rparr>) = Inr s2"
    and l2: "cursorY s2 = ROWS - 1 \<longrightarrow>
            screen_step (Print [CHR 0x0A]) s2
              = Inr (s2\<lparr>buffer := tl (buffer s2) @ [blankRow], cursorX := 0, cursorY := ROWS - 1\<rparr>)
            \<and> screen_step (Println []) s2
              = Inr (s2\<lparr>buffer := tl (buffer s2) @ [blankRow], cursorX := 0, cursorY := ROWS - 1\<rparr>)
            \<and> (\<forall>c. c \<noteq> CHR 0x0A \<and> COLS \<le> cursorX s2 \<longrightarrow>
                  screen_step (Print [c]) s2
                    = Inr (s2\<lparr>buffer := tl (buffer s2) @ [blankRow[0 := Some c]],
                              cursorX := 1, cursorY := ROWS - 1\<rparr>))"
    by (elim exE conjE)
  from r2 have e2: "s2 = ?S2"
    unfolding full_last_row by (simp only: sum.inject)
  have c2: "cursorY ?S2 = ROWS - 1" "COLS \<le> cursorX ?S2" "CHR ''D'' \<noteq> CHR 0x0A"
    by (simp_all add: ROWS_def COLS_def)
  from l2 [unfolded e2] c2
  have "screen_step (Print [CHR ''D'']) ?S2
      = Inr (?S2\<lparr>buffer := tl (buffer ?S2) @ [blankRow[0 := Some CHR ''D'']],
                cursorX := 1, cursorY := ROWS - 1\<rparr>)"
    by blast
  then have second: "screen_step (Print ''D'') ?S2
     = Inr \<lparr>buffer = (Some CHR ''B'' # replicate 39 (Some CHR '' ''))
                       # replicate 21 blankRow @ [replicate 40 (Some CHR ''C''), blankRow[0 := Some CHR ''D'']],
             cursorX = 1, cursorY = 23\<rparr>"
    by (simp add: ROWS_def del: screen_step.simps)
  show ?thesis
    by (rule conjI [OF two_lines_at_bottom conjI [OF first conjI [OF full_last_row second]]])
qed

section \<open>Properties of the interpreter\<close>

subsection \<open>Evaluation on the instance\<close>

lemma ideal_simps [simp]:
  "num_of_nat ideal = (\<lambda>n. Fin (of_nat n))" "num_nan ideal = NaN"
  "num_add ideal = d_add" "num_sub ideal = d_sub" "num_mul ideal = d_mul" "num_div ideal = d_div"
  "num_neg ideal = d_neg" "num_eq ideal = d_eq" "num_lt ideal = d_lt" "num_le ideal = d_le"
  "num_is_nan ideal = d_is_nan" "num_to_string ideal = d_to_string"
  "string_to_num ideal = d_of_string" "parseInt ideal = d_parseInt" "parseFloat ideal = d_parseFloat"
  by (simp_all add: ideal_def)

lemmas char_classes = is_space_def is_digit_def is_letter_def is_upper_def is_lower_def is_word_char_def

subsection \<open>Blank lines, the dispatch and RUN typed at the prompt\<close>

lemma trim_empty_parse:
  assumes "trim line = []" and "tokenize H line = Inr ts"
  shows "parse H k ts = Some (Inr EMPTY)"
  using assms by (auto simp: tokenize_def parse_def isAtEnd_def is_end_def)

lemma trim_empty_body:
  assumes "trim line = []"
  shows "immediate_body H k line st = Some (Inr (), st)"
proof -
  from assms have t: "tokenize H line = Inr [(TEOL, 0)]"
    by (simp add: tokenize_def)
  from trim_empty_parse [OF assms t] show ?thesis
    by (simp add: immediate_body_def t)
qed

lemma executeNode_over: "\<exists>rn. executeNode H k = execute_over H rn"
  by (cases k) auto

lemma tok_run: "tokenize ideal ''RUN'' = Inr [(TKeyword ''RUN'', 0), (TEOL, 3)]"
  by code_simp

lemma parse_run: "parse ideal k [(TKeyword ''RUN'', 0), (TEOL, 3)] = Some (Inr RUN)"
  by (cases k) (simp_all add: parse_def isAtEnd_def is_end_def statement_body_def advance_def)

lemma trim_run: "trim ''RUN'' \<noteq> []"
  by code_simp

lemma immediate_run: "executeImmediate ideal k ''RUN'' st = run ideal k st"
  by (cases k; cases "run ideal k st")
     (simp_all add: executeImmediate_def immediate_body_def trim_run tok_run parse_run run_def)

subsection \<open>The FOR/NEXT program\<close>

text \<open>
  Line 10 pushes a frame whose \<open>bodyStart\<close> is line 10 itself, so the jump that
  \<open>NEXT\<close> requests leads back to the \<open>FOR\<close> statement, which sets the variable to
  1 again and pushes one more frame. One pass through the three lines therefore ends
  where it began, with one more line \<open>1\<close> printed.
\<close>

lemma enter_for_next:
  "map_option (\<lambda>st. (program st, nextLine st))
     (enter_lines ideal 1 [''10 FOR I=1 TO 3'', ''20 PRINT I'', ''30 NEXT I''] (initial ideal))
   = Some (for_next_program, None)"
  by code_simp

lemma sort_for_next: "sort_lines ideal (map_keys for_next_program) = for_next_lines"
  by (simp add: sort_lines_def map_keys_def for_next_program_def for_next_lines_def d_sub_def)

lemma line10:
  assumes "program st = for_next_program" and "running st" and "nextLine st = None"
  shows "run_loop_over ideal (execute_over ideal rn) (Suc k) for_next_lines 0 st
       = run_loop_over ideal (execute_over ideal rn) k for_next_lines 1
           (st\<lparr>currentLine := Fin 10, variables := (variables st)(''I'' \<mapsto> Num (Fin 1)),
               forStack := forStack st @ [frame10]\<rparr>)"
  using assms
  by (simp add: for_next_lines_def for_next_program_def map_get_def executeFor_def frame10_def)

lemma line20:
  assumes "program st = for_next_program" and "running st" and "nextLine st = None"
    and "variables st ''I'' = Some (Num (Fin 1))"
  shows "run_loop_over ideal (execute_over ideal rn) (Suc k) for_next_lines 1 st
       = run_loop_over ideal (execute_over ideal rn) k for_next_lines 2
           (st\<lparr>currentLine := Fin 20, events := events st @ [OutputLine ''1'']\<rparr>)"
  using assms
  by (simp add: for_next_lines_def for_next_program_def map_get_def executePrint_def Let_def
      lookup_def to_string_def interp_println_def show_rat_def show_nat.simps digit_char_def
      numeral_2_eq_2)

lemma line30:
  assumes "program st = for_next_program" and "running st" and "nextLine st = None"
    and "variables st ''I'' = Some (Num (Fin 1))" and "forStack st = fs @ [frame10]"
  shows "run_loop_over ideal (execute_over ideal rn) (Suc k) for_next_lines 2 st
       = run_loop_over ideal (execute_over ideal rn) k for_next_lines 0
           (st\<lparr>currentLine := Fin 30, variables := (variables st)(''I'' \<mapsto> Num (Fin 2)),
               nextLine := None\<rparr>)"
  using assms
  by (simp add: for_next_lines_def for_next_program_def map_get_def executeNext_def Let_def
      lookup_def frame10_def js_plus_def is_string_def to_number_def js_lt_def js_le_def d_le_def
      numeral_2_eq_2)

lemma one_turn:
  assumes "program st = for_next_program" and "running st" and "nextLine st = None"
  shows "run_loop_over ideal (execute_over ideal rn) (Suc (Suc (Suc k))) for_next_lines 0 st
       = run_loop_over ideal (execute_over ideal rn) k for_next_lines 0 (turn st)"
proof -
  let ?s1 = "st\<lparr>currentLine := Fin 10, variables := (variables st)(''I'' \<mapsto> Num (Fin 1)),
               forStack := forStack st @ [frame10]\<rparr>"
  let ?s2 = "?s1\<lparr>currentLine := Fin 20, events := events ?s1 @ [OutputLine ''1'']\<rparr>"
  let ?s3 = "?s2\<lparr>currentLine := Fin 30, variables := (variables ?s2)(''I'' \<mapsto> Num (Fin 2)),
               nextLine := None\<rparr>"
  have "run_loop_over ideal (execute_over ideal rn) (Suc (Suc (Suc k))) for_next_lines 0 st
      = run_loop_over ideal (execute_over ideal rn) (Suc (Suc k)) for_next_lines 1 ?s1"
    using assms by (rule line10)
  also have "\<dots> = run_loop_over ideal (execute_over ideal rn) (Suc k) for_next_lines 2 ?s2"
    using assms by (intro line20) simp_all
  also have "\<dots> = run_loop_over ideal (execute_over ideal rn) k for_next_lines 0 ?s3"
    using assms by (intro line30 [where fs = "forStack st"]) simp_all
  also have "?s3 = turn st"
    using assms by (simp add: turn_def)
  finally show ?thesis .
qed

lemma turn_keeps:
  "program (turn st) = program st" "running (turn st) = running st" "nextLine (turn st) = None"
  by (simp_all add: turn_def)

lemma turns_output: "events ((turn ^^ n) st) = events st @ replicate n (OutputLine ''1'')"
  by (induction n) (simp_all add: turn_def replicate_append_same)

lemma turns_keep:
  "program ((turn ^^ n) st) = program st" "running ((turn ^^ n) st) = running st"
  by (induction n) (simp_all add: turn_keeps)

lemma n_turns:
  assumes "program st = for_next_program" and "running st" and "nextLine st = None"
  shows "run_loop_over ideal (execute_over ideal rn) (3 * n + k) for_next_lines 0 st
       = run_loop_over ideal (execute_over ideal rn) k for_next_lines 0 ((turn ^^ n) st)"
  using assms
proof (induction n arbitrary: st)
  case 0
  then show ?case by simp
next
  case (Suc n)
  have eq: "3 * Suc n + k = Suc (Suc (Suc (3 * n + k)))"
    by simp
  have "run_loop_over ideal (execute_over ideal rn) (3 * n + k) for_next_lines 0 (turn st)
      = run_loop_over ideal (execute_over ideal rn) k for_next_lines 0 ((turn ^^ n) (turn st))"
    using Suc.prems by (intro Suc.IH) (simp_all add: turn_keeps)
  then show ?case
    unfolding eq by (subst one_turn [OF Suc.prems]) (simp add: funpow_swap1)
qed

lemma loop_never_ends:
  "program st = for_next_program \<Longrightarrow> running st \<Longrightarrow> nextLine st = None \<Longrightarrow>
   run_loop_over ideal (execute_over ideal rn) k for_next_lines 0 st = None"
proof (induction k arbitrary: st rule: less_induct)
  case (less k)
  consider "k = 0" | "k = 1" | "k = 2" | j where "k = Suc (Suc (Suc j))"
    by (metis One_nat_def Suc_1 not0_implies_Suc)
  then show ?case
  proof cases
    case 1
    with less.prems show ?thesis
      by (simp add: for_next_lines_def)
  next
    case 2
    show ?thesis
      unfolding 2 One_nat_def
      by (subst line10 [OF less.prems]) (use less.prems in \<open>simp add: for_next_lines_def\<close>)
  next
    case 3
    show ?thesis
      unfolding 3 numeral_2_eq_2
      by (subst line10 [OF less.prems], subst line20)
        (use less.prems in \<open>simp_all add: for_next_lines_def\<close>)
  next
    case 4
    have "run_loop_over ideal (execute_over ideal rn) j for_next_lines 0 (turn st) = None"
      using 4 less.prems by (intro less.IH) (simp_all add: turn_keeps)
    then show ?thesis
      unfolding 4 by (subst one_turn [OF less.prems])
  qed
qed

lemma run_never_ends:
  assumes "program st = for_next_program" and "nextLine st = None"
  shows "run ideal k st = None"
proof -
  have "run_over ideal (execute_over ideal rn) j st = None" for rn j
    using assms
    by (simp add: run_over_def sort_for_next loop_never_ends) (simp add: for_next_program_def)
  moreover have "run_over ideal (\<lambda>node st. None) 0 st = None"
    using assms
    by (simp add: run_over_def sort_for_next) (simp add: for_next_program_def for_next_lines_def)
  moreover obtain rn where "executeNode ideal (k - 1) = execute_over ideal rn"
    by (cases "k - 1") simp_all
  ultimately show ?thesis
    by (cases k) (simp_all add: run_def)
qed

text \<open>
  Claim C1 says that the stored program \<open>10 FOR I=1 TO 3\<close>, \<open>20 PRINT I\<close>,
  \<open>30 NEXT I\<close> terminates and prints 1, 2 and 3. On the code it does not: after the
  three lines are typed into a fresh interpreter, \<open>RUN\<close> does not return, whatever
  fuel it is given (and by \<open>n_turns\<close> and \<open>turns_output\<close> it prints \<open>1\<close> once per
  pass, never 2 or 3).
\<close>

theorem for_next_program_never_terminates:
  "\<exists>st. enter_lines ideal 1 [''10 FOR I=1 TO 3'', ''20 PRINT I'', ''30 NEXT I''] (initial ideal) = Some st
       \<and> (\<forall>k. executeImmediate ideal k ''RUN'' st = None)"
proof -
  from enter_for_next obtain st where
    st: "enter_lines ideal 1 [''10 FOR I=1 TO 3'', ''20 PRINT I'', ''30 NEXT I''] (initial ideal) = Some st"
    and p: "program st = for_next_program" "nextLine st = None"
    by (auto simp: map_option_case split: option.splits)
  from p have "\<forall>k. executeImmediate ideal k ''RUN'' st = None"
    by (simp add: immediate_run run_never_ends)
  with st show ?thesis
    by blast
qed

subsection \<open>A line that is only a number\<close>

text \<open>
  \<open>storeLine\<close> deletes a line whose statement is \<open>EMPTY\<close>, but \<open>parse\<close> never builds
  such a program line: after the line number it calls \<open>parseStatement\<close>, which throws
  on the EOL token. The line typed is reported as a syntax error and the store is
  left as it is.
\<close>

lemma bare_number_syntax_error:
  assumes "tokenize H line = Inr [(TNumber n, p), (TEOL, q)]"
  shows "executeImmediate H k line st
    = Some (st\<lparr>events := events st @
         [Output (''?SYNTAX ERROR'' @ [CHR 0x0A] @ ''Unexpected token: EOL'' @ [CHR 0x0A])]\<rparr>)"
proof -
  have p: "parse H k [(TNumber n, p), (TEOL, q)] = Some (Inl ''Unexpected token: EOL'')"
    by (cases k) (simp_all add: parse_def isAtEnd_def is_end_def advance_def statement_body_def type_name_def)
  have "trim line \<noteq> []"
    using trim_empty_parse [of line H _ k] assms p by auto
  then show ?thesis
    using assms p by (simp add: executeImmediate_def immediate_body_def interp_print_def)
qed

text \<open>
  A line made of digits only is such a line: it tokenizes to one number, whatever the
  state of the store, so typing it is a syntax error and deletes nothing.
\<close>

lemma digit_not_space: "is_digit c \<Longrightarrow> \<not> is_space c"
  by (auto simp: is_digit_def is_space_def)

lemma readNumber_scan_digits: "list_all is_digit s \<Longrightarrow> readNumber_scan s h = s"
  by (induction s) simp_all

lemma trim_digits:
  assumes "s \<noteq> []" and "list_all is_digit s"
  shows "trim s = s"
proof -
  from assms obtain c cs where s: "s = c # cs" and c: "is_digit c"
    by (cases s) auto
  from assms have "is_digit (last s)"
    by (simp add: list_all_iff)
  then have "\<not> is_space (hd (rev s))"
    using assms(1) by (simp add: hd_rev digit_not_space)
  moreover from assms(1) have "rev s \<noteq> []"
    by simp
  ultimately have "dropWhile is_space (rev s) = rev s"
    by (cases "rev s") simp_all
  moreover from s c have "dropWhile is_space s = s"
    by (simp add: digit_not_space)
  ultimately show ?thesis
    by (simp add: trim_def)
qed

lemma tokenize_digits:
  assumes "s \<noteq> []" and "list_all is_digit s"
  shows "tokenize H s = Inr [(TNumber (parseInt H s), 0), (TEOL, length s)]"
proof -
  from assms obtain c cs where s: "s = c # cs" and c: "is_digit c"
    by (cases s) auto
  have "\<not> is_digit CHR ''.''"
    by (simp add: is_digit_def)
  with assms(2) have nodot: "CHR ''.'' \<notin> set s"
    unfolding list_all_iff by blast
  have rn: "readNumber H (c # cs) = (parseInt H s, length s)"
    using nodot readNumber_scan_digits [OF assms(2), of False]
    unfolding readNumber_def Let_def s by simp
  have "tokenize_loop H (c # cs) 0 [] = tokenize_loop H (drop (length s) (c # cs)) (0 + length s)
      ([] @ [(TNumber (parseInt H s), 0)])"
    using c digit_not_space [OF c] by (subst tokenize_loop.simps) (simp add: rn Let_def)
  also have "drop (length s) (c # cs) = []"
    by (simp add: s)
  finally have "tokenize_loop H (c # cs) 0 [] = Inr [(TNumber (parseInt H s), 0), (TEOL, length s)]"
    by simp
  moreover have "trim s = c # cs"
    using trim_digits [OF assms] s by simp
  ultimately show ?thesis
    unfolding tokenize_def by simp
qed


lemma digits_line_is_syntax_error:
  assumes "s \<noteq> []" and "list_all is_digit s"
  shows "executeImmediate H k s st
    = Some (st\<lparr>events := events st @
         [Output (''?SYNTAX ERROR'' @ [CHR 0x0A] @ ''Unexpected token: EOL'' @ [CHR 0x0A])]\<rparr>)"
  using tokenize_digits [OF assms] by (rule bare_number_syntax_error)

text \<open>
  Claim C2 says that typing just the number of a stored line deletes the line, so that
  LIST omits it. On the code, after \<open>10 PRINT 1\<close> and then \<open>10\<close>, line 10 is still
  stored and LIST prints it; the second line only produced a syntax error.
\<close>

theorem bare_line_number_keeps_line:
  "map_option (\<lambda>st. (map fst (program st), events st))
     (enter_lines ideal 1 [''10 PRINT 1'', ''10'', ''LIST''] (initial ideal))
   = Some ([Fin 10],
           [Output (''?SYNTAX ERROR'' @ [CHR 0x0A] @ ''Unexpected token: EOL'' @ [CHR 0x0A]),
            OutputLine ''10 PRINT 1''])"
  by code_simp

subsection \<open>GOTO typed at the prompt\<close>

lemma immediate_goto_sets_nextLine:
  assumes "map_has (program st) n"
  shows "executeNode H k (GOTO n) st = Some (Inr (), st\<lparr>nextLine := Some n\<rparr>)"
  using assms by (cases k) (simp_all add: executeGoto_def)

text \<open>
  Claim C3 says that \<open>GOTO n\<close> typed at the prompt, for a stored line \<open>n\<close>, changes
  nothing that a later operation can observe, and that a following RUN behaves as if
  the GOTO had not been typed. On the code the GOTO leaves \<open>nextLine\<close> set, \<open>run\<close>
  does not reset it, and the next RUN jumps to line \<open>n\<close> after its first line: with the
  lines 10, 20 and 30 printing 1, 2 and 3, RUN prints 1, 2, 3, but \<open>GOTO 30\<close> followed
  by RUN prints 1, 3.
\<close>

theorem immediate_goto_changes_next_run:
  "map_option events
     (enter_lines ideal 3 [''10 PRINT 1'', ''20 PRINT 2'', ''30 PRINT 3'', ''RUN''] (initial ideal))
   = Some [OutputLine ''1'', OutputLine ''2'', OutputLine ''3'']
   \<and> map_option events
     (enter_lines ideal 3 [''10 PRINT 1'', ''20 PRINT 2'', ''30 PRINT 3'', ''GOTO 30'', ''RUN''] (initial ideal))
   = Some [OutputLine ''1'', OutputLine ''3'']"
  by code_simp

subsection \<open>A line that fails\<close>

text \<open>
  Evaluating an expression changes the state only by binding unset variables to
  their defaults, and so does every statement up to the point where it throws.
\<close>

lemma store_kept_refl: "store_kept H st st"
  by (simp add: store_kept_def only_defaults_added_def)

lemma store_kept_trans:
  "store_kept H st st1 \<Longrightarrow> store_kept H st1 st2 \<Longrightarrow> store_kept H st st2"
  unfolding store_kept_def only_defaults_added_def by metis

lemma store_kept_events: "store_kept H st (st\<lparr>events := ev\<rparr>)"
  by (simp add: store_kept_def only_defaults_added_def)

lemma evaluate_store_kept:
  "evaluate H e st = (r, st') \<Longrightarrow> store_kept H st st'"
proof (induction e arbitrary: st r st')
  case (NUMBER v)
  then show ?case by (auto simp: store_kept_refl)
next
  case (STRING s)
  then show ?case by (auto simp: store_kept_refl)
next
  case (VARIABLE name)
  then show ?case
    by (auto simp: store_kept_def only_defaults_added_def default_value_def Let_def split: if_splits)
next
  case (BINARY operator l r')
  obtain r1 st1 where l: "evaluate H l st = (r1, st1)"
    by (cases "evaluate H l st")
  then have k1: "store_kept H st st1"
    by (rule BINARY.IH(1))
  show ?case
  proof (cases r1)
    case (Inl e)
    with BINARY.prems l k1 show ?thesis by simp
  next
    case (Inr left)
    obtain r2 st2 where r: "evaluate H r' st1 = (r2, st2)"
      by (cases "evaluate H r' st1")
    then have k2: "store_kept H st1 st2"
      by (rule BINARY.IH(2))
    from BINARY.prems l Inr r have "st' = st2"
      by (cases r2) auto
    with k1 k2 show ?thesis
      by (auto intro: store_kept_trans)
  qed
next
  case (UNARY operator e)
  obtain r1 st1 where l: "evaluate H e st = (r1, st1)"
    by (cases "evaluate H e st")
  then have k1: "store_kept H st st1"
    by (rule UNARY.IH)
  from UNARY.prems l have "st' = st1"
    by (cases r1) auto
  with k1 show ?case by simp
qed

lemma print_items_store_kept:
  "print_items H es seps out st = (r, st') \<Longrightarrow> store_kept H st st'"
proof (induction es arbitrary: seps out st)
  case Nil
  then show ?case by (auto simp: store_kept_refl)
next
  case (Cons e es)
  obtain r1 st1 where e: "evaluate H e st = (r1, st1)"
    by (cases "evaluate H e st")
  then have k1: "store_kept H st st1"
    by (rule evaluate_store_kept)
  show ?case
  proof (cases r1)
    case (Inl m)
    with Cons.prems e k1 show ?thesis by simp
  next
    case (Inr v)
    with Cons.prems e have "store_kept H st1 st'"
      by (auto intro: Cons.IH)
    with k1 show ?thesis
      by (rule store_kept_trans)
  qed
qed

lemma executePrint_throws:
  "executePrint H es seps st = (Inl m, st') \<Longrightarrow> store_kept H st st'"
  by (auto simp: executePrint_def split: prod.splits sum.splits dest: print_items_store_kept)

lemma executeLet_throws:
  "executeLet H var e st = (Inl m, st') \<Longrightarrow> store_kept H st st'"
  by (auto simp: executeLet_def split: prod.splits sum.splits dest: evaluate_store_kept)

lemma executeInput_throws:
  "executeInput H prompt var st = Some (Inl m, st') \<Longrightarrow> store_kept H st st'"
  by (auto simp: executeInput_def Let_def store_kept_def only_defaults_added_def
      split: list.splits if_splits)

lemma executeGoto_throws:
  "executeGoto n st = (Inl m, st') \<Longrightarrow> store_kept H st st'"
  by (auto simp: executeGoto_def store_kept_refl split: if_splits)

lemma executeFor_throws:
  "executeFor H var s e step st = (Inl m, st') \<Longrightarrow> store_kept H st st'"
  by (auto simp: executeFor_def split: prod.splits sum.splits
      dest!: evaluate_store_kept intro: store_kept_trans)

lemma executeNext_throws:
  "executeNext H var st = (Inl m, st') \<Longrightarrow> store_kept H st st'"
  by (auto simp: executeNext_def Let_def store_kept_refl split: if_splits)

lemma list_lines_store_kept:
  "list_lines H ls a b st = (r, st') \<Longrightarrow> store_kept H st st'"
proof (induction ls arbitrary: st)
  case Nil
  then show ?case by (auto simp: store_kept_refl)
next
  case (Cons l ls)
  show ?case
  proof (cases "num_le H a l \<and> num_le H l b")
    case False
    with Cons show ?thesis by auto
  next
    case True
    show ?thesis
    proof (cases "map_get (program st) l")
      case None
      with True Cons.prems show ?thesis by (auto simp: store_kept_refl)
    next
      case (Some line)
      let ?st1 = "interp_println (num_to_string H l @ '' '' @ strip_line_number (fst line)) st"
      from True Some Cons.prems have "list_lines H ls a b ?st1 = (r, st')"
        by simp
      then have "store_kept H ?st1 st'"
        by (rule Cons.IH)
      moreover have "store_kept H st ?st1"
        by (simp add: interp_println_def store_kept_events)
      ultimately show ?thesis
        by (auto intro: store_kept_trans)
    qed
  qed
qed

lemma executeList_throws:
  "executeList H a b st = (Inl m, st') \<Longrightarrow> store_kept H st st'"
  by (auto simp: executeList_def Let_def split: if_splits dest: list_lines_store_kept)

lemma execute_over_throws:
  "execute_over H rn node st = Some (Inl m, st') \<Longrightarrow> store_kept H st st'"
proof (induction node arbitrary: st)
  case (IF condition thenStatement)
  obtain r1 st1 where c: "evaluate H condition st = (r1, st1)"
    by (cases "evaluate H condition st")
  then have k1: "store_kept H st st1"
    by (rule evaluate_store_kept)
  show ?case
  proof (cases r1)
    case (Inl e)
    with IF.prems c k1 show ?thesis by simp
  next
    case (Inr v)
    with IF.prems c have "store_kept H st1 st'"
      by (auto split: if_splits intro: IF.IH)
    with k1 show ?thesis
      by (rule store_kept_trans)
  qed
qed (auto simp: store_kept_refl dest: executePrint_throws executeLet_throws executeInput_throws
      executeGoto_throws executeFor_throws executeNext_throws executeList_throws)

lemma executeNode_throws:
  "executeNode H k node st = Some (Inl m, st') \<Longrightarrow> store_kept H st st'"
  by (cases k) (auto dest: execute_over_throws)

lemma immediate_body_throws:
  "immediate_body H k line st = Some (Inl m, st') \<Longrightarrow> store_kept H st st'"
  by (auto simp: immediate_body_def store_kept_refl
      split: sum.splits option.splits node.splits dest: executeNode_throws)

text \<open>
  Claim C4 as it is written, that a failing line leaves the variable environment
  exactly as it was, does not hold: \<open>PRINT X/0\<close> on a fresh interpreter fails with a
  division by zero, and \<open>X\<close>, unset before, is bound to 0 afterwards, because the
  read of \<open>X\<close> came before the division.
\<close>

theorem failing_line_changes_variables:
  "variables (initial ideal) ''X'' = None
   \<and> map_option (\<lambda>(r, s). (r, variables s ''X'')) (immediate_body ideal 1 ''PRINT X/0'' (initial ideal))
       = Some (Inl ''?DIVISION BY ZERO ERROR'', Some (Num (Fin 0)))
   \<and> map_option (\<lambda>s. (variables s ''X'', events s)) (executeImmediate ideal 1 ''PRINT X/0'' (initial ideal))
       = Some (Some (Num (Fin 0)),
           [Output (''?SYNTAX ERROR'' @ [CHR 0x0A] @ ''?DIVISION BY ZERO ERROR'' @ [CHR 0x0A])])"
  by code_simp

text \<open>
  Claim C4, amended. When tokenizing, parsing or executing a line typed at the prompt
  throws (an error raised inside a RUN is caught by RUN itself and is not meant
  here), \<open>executeImmediate\<close> catches the error and reports \<open>?SYNTAX ERROR\<close> with the
  message on the next line; the program store is exactly as before; and the variable
  environment is as before except that a variable that was unset may now be bound to
  its default, 0 or the empty string.
\<close>

theorem failing_line_keeps_store:
  assumes "immediate_body H k line st = Some (Inl m, st1)"
  shows "executeImmediate H k line st
           = Some (st1\<lparr>events := events st1 @
                 [Output (''?SYNTAX ERROR'' @ [CHR 0x0A] @ m @ [CHR 0x0A])]\<rparr>)
       \<and> program st1 = program st
       \<and> (\<forall>x. variables st1 x = variables st x
              \<or> (variables st x = None
                  \<and> variables st1 x = Some (if endsWith x CHR ''$'' then Str [] else Num (num_of_nat H 0))))"
proof -
  from assms have "trim line \<noteq> []"
    using trim_empty_body [of line H k st] by auto
  with assms have "executeImmediate H k line st
           = Some (st1\<lparr>events := events st1 @
                 [Output (''?SYNTAX ERROR'' @ [CHR 0x0A] @ m @ [CHR 0x0A])]\<rparr>)"
    by (simp add: executeImmediate_def interp_print_def)
  moreover from immediate_body_throws [OF assms]
  have "program st1 = program st"
    and "\<forall>x. variables st1 x = variables st x
              \<or> (variables st x = None
                  \<and> variables st1 x = Some (if endsWith x CHR ''$'' then Str [] else Num (num_of_nat H 0)))"
    by (simp_all add: store_kept_def only_defaults_added_def default_value_def)
  ultimately show ?thesis
    by blast
qed

lemma tok_print_5_0:
  "tokenize ideal ''PRINT 5/0''
     = Inr [(TKeyword ''PRINT'', 0), (TNumber (Fin 5), 6), (TOperator ''/'', 7), (TNumber (Fin 0), 8), (TEOL, 9)]"
  by code_simp

lemma parse_print_5_0:
  "parse ideal (Suc 0) [(TKeyword ''PRINT'', 0), (TNumber (Fin 5), 6), (TOperator ''/'', 7), (TNumber (Fin 0), 8), (TEOL, 9)]
     = Some (Inr (PRINT [BINARY ''/'' (NUMBER (Fin 5)) (NUMBER (Fin 0))] []))"
  by code_simp

lemma body_print_5_0:
  "immediate_body ideal 1 ''PRINT 5/0'' st = Some (Inl ''?DIVISION BY ZERO ERROR'', st)"
  by (simp add: immediate_body_def tok_print_5_0 parse_print_5_0 executePrint_def
      binary_op_def js_strict_eq_def)

text \<open>
  The theorem at \<open>PRINT 5/0\<close>, with one stored line and one variable set: the error
  is reported and nothing else changes.
\<close>

theorem failing_line_witness:
  "executeImmediate ideal 1 ''PRINT 5/0''
     ((initial ideal)\<lparr>program := [(Fin 10, ''10 PRINT 1'', PRINT [NUMBER (Fin 1)] [])],
                      variables := [''A'' \<mapsto> Num (Fin 7)]\<rparr>)
   = Some ((initial ideal)\<lparr>program := [(Fin 10, ''10 PRINT 1'', PRINT [NUMBER (Fin 1)] [])],
                      variables := [''A'' \<mapsto> Num (Fin 7)],
                      events := [Output (''?SYNTAX ERROR'' @ [CHR 0x0A] @ ''?DIVISION BY ZERO ERROR'' @ [CHR 0x0A])]\<rparr>)"
  using failing_line_keeps_store [OF body_print_5_0, of
      "(initial ideal)\<lparr>program := [(Fin 10, ''10 PRINT 1'', PRINT [NUMBER (Fin 1)] [])],
                      variables := [''A'' \<mapsto> Num (Fin 7)]\<rparr>"]
  by (simp add: initial_def)

subsection \<open>RUN on an empty store\<close>

text \<open>
  Claim C5. When the program store is empty, RUN returns at once, whatever the fuel:
  it prints the message \<open>?NO PROGRAM\<close> and changes nothing else, so the store, the
  variables and the loop stack are as before and no statement was executed. The same
  holds for the statement \<open>RUN\<close> executed through \<open>executeNode\<close>.
\<close>

theorem run_empty_store:
  assumes "program st = []"
  shows "run H k st = Some (st\<lparr>events := events st @ [Output (''?NO PROGRAM'' @ [CHR 0x0A])]\<rparr>)
       \<and> executeNode H k RUN st
           = Some (Inr (), st\<lparr>events := events st @ [Output (''?NO PROGRAM'' @ [CHR 0x0A])]\<rparr>)"
proof -
  have r: "run_over H exec j st = Some (st\<lparr>events := events st @ [Output (''?NO PROGRAM'' @ [CHR 0x0A])]\<rparr>)"
    for exec j
    using assms by (simp add: run_over_def interp_print_def)
  show ?thesis
    by (cases k) (simp_all add: run_def r)
qed

text \<open>
  The theorem on a state with an empty store, a variable set and a frame on the loop
  stack: both are still there after RUN.
\<close>

theorem run_empty_store_witness:
  "run ideal 0 ((initial ideal)\<lparr>variables := [''A'' \<mapsto> Num (Fin 7)], forStack := [\<lparr>variable = ''I'', endValue = Num (Fin 3), stepValue = Num (Fin 1), bodyStart = Fin 10\<rparr>]\<rparr>)
     = Some ((initial ideal)\<lparr>variables := [''A'' \<mapsto> Num (Fin 7)], forStack := [\<lparr>variable = ''I'', endValue = Num (Fin 3), stepValue = Num (Fin 1), bodyStart = Fin 10\<rparr>],
               events := [Output (''?NO PROGRAM'' @ [CHR 0x0A])]\<rparr>)"
  using run_empty_store [of "(initial ideal)\<lparr>variables := [''A'' \<mapsto> Num (Fin 7)], forStack := [\<lparr>variable = ''I'', endValue = Num (Fin 3), stepValue = Num (Fin 1), bodyStart = Fin 10\<rparr>]\<rparr>" ideal 0]
  by (simp add: initial_def)

subsection \<open>Division\<close>

text \<open>
  Division associates to the left: \<open>1/0/2\<close> is parsed as \<open>(1/0)/2\<close>, and printing it
  fails with a division by zero.
\<close>

lemma parse_1_0_2:
  "map_option (map_sum id fst)
     (parseExpression ideal 2 [(TNumber (Fin 1), 0), (TOperator ''/'', 1), (TNumber (Fin 0), 2),
        (TOperator ''/'', 3), (TNumber (Fin 2), 4), (TEOL, 5)])
   = Some (Inr (BINARY ''/'' (BINARY ''/'' (NUMBER (Fin 1)) (NUMBER (Fin 0))) (NUMBER (Fin 2))))"
  by code_simp

lemma print_1_0_2:
  "map_option events (enter_lines ideal 2 [''PRINT 1/0/2''] (initial ideal))
   = Some [Output (''?SYNTAX ERROR'' @ [CHR 0x0A] @ ''?DIVISION BY ZERO ERROR'' @ [CHR 0x0A])]"
  by code_simp

text \<open>
  Claim C6 as it is written, that \<open>l / r\<close> raises a division by zero exactly when
  \<open>r\<close> evaluates to zero, does not hold when the error comes from the left operand:
  in \<open>1/0/2\<close>, that is \<open>(1/0)/2\<close>, the right operand evaluates to 2 and the
  evaluation raises \<open>?DIVISION BY ZERO ERROR\<close>.
\<close>

theorem division_error_from_left_operand:
  "fst (evaluate ideal (NUMBER (Fin 2)) (initial ideal)) = Inr (Num (Fin 2))
   \<and> \<not> num_eq ideal (Fin 2) (num_of_nat ideal 0)
   \<and> fst (evaluate ideal (BINARY ''/'' (BINARY ''/'' (NUMBER (Fin 1)) (NUMBER (Fin 0))) (NUMBER (Fin 2)))
          (initial ideal)) = Inl ''?DIVISION BY ZERO ERROR''"
  by (simp add: binary_op_def js_strict_eq_def)

text \<open>
  Claim C6, amended. For a binary expression \<open>l / r\<close> whose left operand evaluates
  without error and whose right operand then evaluates to a number \<open>y\<close>, the
  evaluation raises \<open>?DIVISION BY ZERO ERROR\<close> if and only if \<open>y === 0\<close>; otherwise
  it returns the host's quotient of the left value (as a number) by \<open>y\<close>, in the
  state the operands left.
\<close>

theorem division_by_zero_iff:
  assumes "evaluate H l st = (Inr a, st1)" and "evaluate H r st1 = (Inr (Num y), st2)"
  shows "(fst (evaluate H (BINARY ''/'' l r) st) = Inl ''?DIVISION BY ZERO ERROR''
            \<longleftrightarrow> num_eq H y (num_of_nat H 0))
       \<and> (\<not> num_eq H y (num_of_nat H 0) \<longrightarrow>
            evaluate H (BINARY ''/'' l r) st = (Inr (Num (num_div H (to_number H a) y)), st2))"
  using assms by (simp add: binary_op_def js_strict_eq_def js_divide_def to_number_def)

text \<open>
  The theorem at \<open>6/0\<close> and at \<open>6/3\<close>.
\<close>

theorem division_by_zero_witness:
  "fst (evaluate ideal (BINARY ''/'' (NUMBER (Fin 6)) (NUMBER (Fin 0))) (initial ideal))
     = Inl ''?DIVISION BY ZERO ERROR''
   \<and> evaluate ideal (BINARY ''/'' (NUMBER (Fin 6)) (NUMBER (Fin 3))) (initial ideal)
     = (Inr (Num (Fin 2)), initial ideal)"
  using division_by_zero_iff [of ideal "NUMBER (Fin 6)" "initial ideal" "Num (Fin 6)" "initial ideal"
      "NUMBER (Fin 0)" "Fin 0" "initial ideal"]
    division_by_zero_iff [of ideal "NUMBER (Fin 6)" "initial ideal" "Num (Fin 6)" "initial ideal"
      "NUMBER (Fin 3)" "Fin 3" "initial ideal"]
  by (simp add: to_number_def)

subsection \<open>NEXT without FOR\<close>

lemma executeNext_raises:
  assumes "forStack st = [] \<or> (\<exists>x. var = Some x \<and> x \<noteq> [] \<and> x \<noteq> variable (last (forStack st)))"
  shows "executeNext H var st = (Inl ''?NEXT WITHOUT FOR ERROR'', st)"
  using assms by (auto simp: executeNext_def next_without_for_def Let_def)

text \<open>
  Claim C7. Executing \<open>NEXT\<close> raises \<open>?NEXT WITHOUT FOR ERROR\<close> if and only if the
  loop stack is empty or the statement names a variable that differs from the
  variable of the top frame. A variable is named when the node holds a name that is
  not the empty string, as every identifier of the tokenizer is (the test in the
  code is \<open>node.variable && ...\<close>). \<open>executeNode\<close> does nothing else for a \<open>NEXT\<close>: in
  immediate mode the try block of \<open>executeImmediate\<close> returns what \<open>executeNext\<close>
  returns, and inside RUN the loop stops with this error at the line of the \<open>NEXT\<close>.
\<close>

theorem next_without_for_iff:
  "(fst (executeNext H var st) = Inl ''?NEXT WITHOUT FOR ERROR''
      \<longleftrightarrow> forStack st = []
          \<or> (\<exists>x. var = Some x \<and> x \<noteq> [] \<and> x \<noteq> variable (last (forStack st))))
   \<and> executeNode H k (NEXT var) st = Some (executeNext H var st)
   \<and> (tokenize H line = Inr ts \<and> parse H k ts = Some (Inr (NEXT var))
        \<longrightarrow> immediate_body H k line st = Some (executeNext H var st))
   \<and> (i < length lines \<and> running st \<and> map_get (program st) (lines ! i) = Some (src, NEXT var)
        \<and> (forStack st = []
             \<or> (\<exists>x. var = Some x \<and> x \<noteq> [] \<and> x \<noteq> variable (last (forStack st))))
        \<longrightarrow> run_loop_over H (executeNode H k) (Suc j) lines i st
              = Some (Inl ''?NEXT WITHOUT FOR ERROR'', st\<lparr>currentLine := lines ! i\<rparr>))"
proof -
  have iff: "fst (executeNext H var st) = Inl ''?NEXT WITHOUT FOR ERROR''
      \<longleftrightarrow> forStack st = []
          \<or> (\<exists>x. var = Some x \<and> x \<noteq> [] \<and> x \<noteq> variable (last (forStack st)))"
    by (auto simp: executeNext_def next_without_for_def Let_def split: option.splits)
  have node: "executeNode H k (NEXT var) s = Some (executeNext H var s)" for s
    by (cases k) simp_all
  have imm: "immediate_body H k line st = Some (executeNext H var st)"
    if "tokenize H line = Inr ts" and "parse H k ts = Some (Inr (NEXT var))"
    using that by (simp add: immediate_body_def node)
  have loop: "run_loop_over H (executeNode H k) (Suc j) lines i st
                  = Some (Inl ''?NEXT WITHOUT FOR ERROR'', st\<lparr>currentLine := lines ! i\<rparr>)"
    if "i < length lines" and "running st"
      and "map_get (program st) (lines ! i) = Some (src, NEXT var)"
      and c: "forStack st = []
        \<or> (\<exists>x. var = Some x \<and> x \<noteq> [] \<and> x \<noteq> variable (last (forStack st)))"
  proof -
    from c have "forStack (st\<lparr>currentLine := lines ! i\<rparr>) = []
        \<or> (\<exists>x. var = Some x \<and> x \<noteq> []
              \<and> x \<noteq> variable (last (forStack (st\<lparr>currentLine := lines ! i\<rparr>))))"
      by simp
    then have "executeNext H var (st\<lparr>currentLine := lines ! i\<rparr>)
        = (Inl ''?NEXT WITHOUT FOR ERROR'', st\<lparr>currentLine := lines ! i\<rparr>)"
      by (rule executeNext_raises)
    with that show ?thesis
      by (simp add: node)
  qed
  from iff node imm loop show ?thesis
    by blast
qed

lemma tok_next: "tokenize ideal ''NEXT'' = Inr [(TKeyword ''NEXT'', 0), (TEOL, 4)]"
  by code_simp

lemma parse_next: "parse ideal 0 [(TKeyword ''NEXT'', 0), (TEOL, 4)] = Some (Inr (NEXT None))"
  by code_simp

text \<open>
  The theorem at \<open>NEXT\<close> typed into a fresh interpreter, and what the terminal shows
  for a \<open>NEXT\<close> without \<open>FOR\<close> typed at the prompt, for one in a program, and for a
  \<open>NEXT J\<close> inside a loop on \<open>I\<close>.
\<close>

theorem next_without_for_witness:
  "fst (executeNext ideal None (initial ideal)) = Inl ''?NEXT WITHOUT FOR ERROR''
   \<and> map_option fst (immediate_body ideal 0 ''NEXT'' (initial ideal)) = Some (Inl ''?NEXT WITHOUT FOR ERROR'')
   \<and> map_option events (enter_lines ideal 0 [''NEXT''] (initial ideal))
       = Some [Output (''?SYNTAX ERROR'' @ [CHR 0x0A] @ ''?NEXT WITHOUT FOR ERROR'' @ [CHR 0x0A])]
   \<and> map_option events (enter_lines ideal 1 [''10 NEXT'', ''RUN''] (initial ideal))
       = Some [Output (''?NEXT WITHOUT FOR ERROR'' @ [CHR 0x0A])]
   \<and> map_option events (enter_lines ideal 2 [''10 FOR I=1 TO 2'', ''20 NEXT J'', ''RUN''] (initial ideal))
       = Some [Output (''?NEXT WITHOUT FOR ERROR'' @ [CHR 0x0A])]"
proof -
  have e: "forStack (initial ideal) = []"
    by (simp add: initial_def)
  from next_without_for_iff [where H = ideal and var = None and st = "initial ideal" and k = 0
      and line = "''NEXT''" and ts = "[(TKeyword ''NEXT'', 0), (TEOL, 4)]"]
    e tok_next parse_next
  have "fst (executeNext ideal None (initial ideal)) = Inl ''?NEXT WITHOUT FOR ERROR''"
    and "immediate_body ideal 0 ''NEXT'' (initial ideal) = Some (executeNext ideal None (initial ideal))"
    by simp_all
  moreover have "map_option events (enter_lines ideal 0 [''NEXT''] (initial ideal))
       = Some [Output (''?SYNTAX ERROR'' @ [CHR 0x0A] @ ''?NEXT WITHOUT FOR ERROR'' @ [CHR 0x0A])]"
    by code_simp
  moreover have "map_option events (enter_lines ideal 1 [''10 NEXT'', ''RUN''] (initial ideal))
       = Some [Output (''?NEXT WITHOUT FOR ERROR'' @ [CHR 0x0A])]"
    by code_simp
  moreover have "map_option events (enter_lines ideal 2 [''10 FOR I=1 TO 2'', ''20 NEXT J'', ''RUN''] (initial ideal))
       = Some [Output (''?NEXT WITHOUT FOR ERROR'' @ [CHR 0x0A])]"
    by code_simp
  ultimately show ?thesis
    by simp
qed

subsection \<open>Reading an unset variable\<close>

text \<open>
  Claim C8. Evaluating a reference to a variable that is not bound does not fail; it
  yields the empty string when the name ends in \<open>$\<close> and 0 otherwise.
\<close>

theorem unset_variable_default:
  "variables st name = None \<Longrightarrow>
   fst (evaluate H (VARIABLE name) st)
     = Inr (if endsWith name CHR ''$'' then Str [] else Num (num_of_nat H 0))"
  by (simp add: Let_def lookup_def)

text \<open>
  The theorem at \<open>A$\<close> and at \<open>COUNT\<close> on a fresh interpreter.
\<close>

theorem unset_variable_default_witness:
  "variables (initial ideal) ''A$'' = None
   \<and> fst (evaluate ideal (VARIABLE ''A$'') (initial ideal)) = Inr (Str [])
   \<and> variables (initial ideal) ''COUNT'' = None
   \<and> fst (evaluate ideal (VARIABLE ''COUNT'') (initial ideal)) = Inr (Num (Fin 0))"
  using unset_variable_default [of "initial ideal" "''A$''" ideal]
    unset_variable_default [of "initial ideal" "''COUNT''" ideal]
  by (simp add: initial_def endsWith_def)

subsection \<open>REM lines\<close>

text \<open>
  A line that begins with a number and the keyword \<open>REM\<close>, in whatever case it was
  typed, parses to a program line with the statement \<open>REM\<close>; the rest of the line is
  not looked at.
\<close>

lemma parseStatement_body: "\<exists>f. parseStatement H k = statement_body H k f"
  by (cases k) auto

lemma parse_rem_line:
  "parse H k ((TNumber n, p) # (TKeyword ''REM'', q) # rest) = Some (Inr (PROGRAM_LINE n REM))"
proof -
  obtain f where f: "parseStatement H k = statement_body H k f"
    using parseStatement_body by blast
  have "statement_body H k f ((TKeyword ''REM'', q) # rest) = Some (Inr (REM, rest))"
    by (simp add: statement_body_def parseRem_def pbind_def expect_def check_def is_end_def
        type_name_def string_value_def advance_def)
  then show ?thesis
    by (simp add: parse_def isAtEnd_def is_end_def advance_def f)
qed

text \<open>
  Claim C10. When a numbered line is typed whose statement parses to \<open>REM\<close>, the line
  is stored under its number if the text typed contains \<open>REM\<close> in capitals, and
  otherwise the number is deleted from the store.
\<close>

theorem rem_line_stored_only_with_uppercase_REM:
  assumes "tokenize H line = Inr ts" and "parse H k ts = Some (Inr (PROGRAM_LINE n REM))"
  shows "executeImmediate H k line st
           = Some (if str_includes line ''REM''
                   then st\<lparr>program := map_set (program st) n (line, REM)\<rparr>
                   else st\<lparr>program := map_delete (program st) n\<rparr>)
       \<and> \<not> map_has (map_delete (program st) n) n
       \<and> map_has (map_set (program st) n (line, REM)) n"
proof -
  have "trim line \<noteq> []"
    using trim_empty_parse [of line H ts k] assms by auto
  then have "executeImmediate H k line st
           = Some (if str_includes line ''REM''
                   then st\<lparr>program := map_set (program st) n (line, REM)\<rparr>
                   else st\<lparr>program := map_delete (program st) n\<rparr>)"
    using assms by (simp add: executeImmediate_def immediate_body_def storeLine_def)
  moreover have "\<not> map_has (map_delete (program st) n) n"
    by (auto simp: map_has_def map_delete_def)
  moreover have "map_has (map_set (program st) n (line, REM)) n"
    by (force simp: map_has_def map_set_def)
  ultimately show ?thesis
    by blast
qed

lemma tok_rem_lower: "tokenize ideal ''10 rem hello'' = Inr [(TNumber (Fin 10), 0), (TKeyword ''REM'', 3), (TIdentifier ''HELLO'', 7), (TEOL, 12)]"
  by code_simp

lemma tok_rem_upper: "tokenize ideal ''10 REM hello'' = Inr [(TNumber (Fin 10), 0), (TKeyword ''REM'', 3), (TIdentifier ''HELLO'', 7), (TEOL, 12)]"
  by code_simp

text \<open>
  The theorem at \<open>10 rem hello\<close>, which erases a stored line 10, and at
  \<open>10 REM hello\<close>, which replaces it.
\<close>

theorem rem_line_witness:
  "map_option program (executeImmediate ideal 0 ''10 rem hello''
      ((initial ideal)\<lparr>program := [(Fin 10, ''10 PRINT 1'', PRINT [NUMBER (Fin 1)] [])]\<rparr>)) = Some []
   \<and> map_option program (executeImmediate ideal 0 ''10 REM hello''
      ((initial ideal)\<lparr>program := [(Fin 10, ''10 PRINT 1'', PRINT [NUMBER (Fin 1)] [])]\<rparr>))
       = Some [(Fin 10, ''10 REM hello'', REM)]"
  using rem_line_stored_only_with_uppercase_REM [OF tok_rem_lower parse_rem_line,
      where k = 0 and st = "(initial ideal)\<lparr>program := [(Fin 10, ''10 PRINT 1'', PRINT [NUMBER (Fin 1)] [])]\<rparr>"]
    rem_line_stored_only_with_uppercase_REM [OF tok_rem_upper parse_rem_line,
      where k = 0 and st = "(initial ideal)\<lparr>program := [(Fin 10, ''10 PRINT 1'', PRINT [NUMBER (Fin 1)] [])]\<rparr>"]
  by (simp add: map_set_def map_delete_def map_has_def)

end
